theory Spec2Isabelle
  imports Main "HOL-Library.Word"
begin

unbundle bit_operations_syntax

section \<open>License tokens of the authorization service\<close>

text \<open>
  The development embeds \<^verbatim>\<open>src/AuthorizationServiceApi.js\<close>: the handler
  \<^verbatim>\<open>processGet\<close> of \<^verbatim>\<open>GET /:videoName\<close>, which answers with a license token for
  a video. The handler looks the video up, hands out a hardcoded token when the video has
  one, refuses when the secrets are not configured, and otherwise encrypts every content
  key under the communication key, puts the encrypted keys into an entitlement message,
  the message into an envelope, and signs the envelope as a JSON Web Token.
\<close>

subsection \<open>Bytes, blocks and buffers\<close>

text \<open>
  A \<^verbatim>\<open>Buffer\<close> is a list of bytes. A cipher block of AES is 16 bytes, read here as
  one 128-bit word with the first byte in the most significant position.
\<close>

type_synonym byte = "8 word"
type_synonym buffer = "byte list"
type_synonym block = "128 word"

definition block_of_bytes :: "buffer \<Rightarrow> block" where
  "block_of_bytes bs = foldl (\<lambda>w b. push_bit 8 w OR ucast b) 0 bs"

definition bytes_of_block :: "block \<Rightarrow> buffer" where
  "bytes_of_block w = map (\<lambda>i. ucast (drop_bit (8 * (15 - i)) w)) [0..<16]"

subsection \<open>Base64, as \<^verbatim>\<open>Buffer.toString("base64")\<close> writes it\<close>

definition b64chars :: string where
  "b64chars = ''ABCDEFGHIJKLMNOPQRSTUVWXYZabcdefghijklmnopqrstuvwxyz0123456789+/''"

definition b64char :: "nat \<Rightarrow> char" where
  "b64char n = b64chars ! (n mod 64)"

text \<open>
  Three bytes make four characters; one or two trailing bytes make two or three
  characters, filled up with \<^verbatim>\<open>=\<close>.
\<close>

fun base64_encode :: "buffer \<Rightarrow> string" where
  "base64_encode [] = []"
| "base64_encode [a] =
     (let n = unat a * 65536
      in [b64char (n div 262144), b64char (n div 4096), CHR ''='', CHR ''=''])"
| "base64_encode [a, b] =
     (let n = unat a * 65536 + unat b * 256
      in [b64char (n div 262144), b64char (n div 4096), b64char (n div 64), CHR ''=''])"
| "base64_encode (a # b # c # rest) =
     (let n = unat a * 65536 + unat b * 256 + unat c
      in [b64char (n div 262144), b64char (n div 4096), b64char (n div 64), b64char n]
         @ base64_encode rest)"

subsection \<open>\<^verbatim>\<open>uuid.parse\<close> of node-uuid\<close>

text \<open>
  \<^verbatim>\<open>uuid.parse(s)\<close> lower-cases the string, takes every pair of hexadecimal digits it
  finds from left to right (\<^verbatim>\<open>/[0-9a-f]{2}/g\<close>: a character that starts no pair is
  skipped), keeps the first 16 of them as bytes and fills up with zero bytes when the
  string had fewer. The result always has 16 entries.
\<close>

definition hex_digit :: "char \<Rightarrow> nat option" where
  "hex_digit c =
     (let n = of_char c :: nat
      in if 48 \<le> n \<and> n \<le> 57 then Some (n - 48)
         else if 97 \<le> n \<and> n \<le> 102 then Some (n - 87)
         else if 65 \<le> n \<and> n \<le> 70 then Some (n - 55)
         else None)"

fun hex_pairs :: "string \<Rightarrow> byte list" where
  "hex_pairs (c # d # rest) =
     (case (hex_digit c, hex_digit d) of
        (Some h, Some l) \<Rightarrow> of_nat (16 * h + l) # hex_pairs rest
      | _ \<Rightarrow> hex_pairs (d # rest))"
| "hex_pairs _ = []"

definition uuid_parse :: "string \<Rightarrow> buffer" where
  "uuid_parse s = (let bs = take 16 (hex_pairs s) in bs @ replicate (16 - length bs) 0)"

subsection \<open>Library functions taken as given\<close>

text \<open>
  The handler calls into Node and into npm packages whose code is not part of the
  repository. What the claims need of them is their type; the functions themselves are
  parameters of the model:
  \<^item> \<open>aes256_encrypt k b\<close>: AES-256 encryption of the block \<open>b\<close> under the key \<open>k\<close>;
  \<^item> \<open>hmac_sha256 k m\<close>: the HMAC-SHA-256 of the message \<open>m\<close> under the key \<open>k\<close>;
  \<^item> \<open>from_base64 s\<close> and \<open>from_hex s\<close>: \<^verbatim>\<open>Buffer.from(s, "base64")\<close> and
    \<^verbatim>\<open>Buffer.from(s, "hex")\<close>;
  \<^item> \<open>add_days n t\<close>: the instant \<open>n\<close> calendar days after the instant \<open>t\<close> in the
    server's time zone, as \<^verbatim>\<open>moment\<close> adds and subtracts days (instants are
    milliseconds since the epoch);
  \<^item> \<open>toISOString t\<close>: \<^verbatim>\<open>toISOString()\<close> of the moment at the instant \<open>t\<close>.
\<close>

record platform =
  aes256_encrypt :: "buffer \<Rightarrow> block \<Rightarrow> block"
  hmac_sha256 :: "buffer \<Rightarrow> buffer \<Rightarrow> buffer"
  from_base64 :: "string \<Rightarrow> buffer"
  from_hex :: "string \<Rightarrow> buffer"
  add_days :: "int \<Rightarrow> int \<Rightarrow> int"
  toISOString :: "int \<Rightarrow> string"

subsection \<open>The cipher object of \<^verbatim>\<open>crypto.createCipheriv("aes-256-cbc", key, iv)\<close>\<close>

text \<open>
  What the handler throws. The cipher refuses a key that is not 32 bytes, an
  initialization vector that is not 16 bytes, and, with automatic padding switched off,
  data that does not end on a block boundary when \<^verbatim>\<open>final()\<close> is called. The signing
  library refuses a payload whose claim \<^verbatim>\<open>iat\<close>, \<^verbatim>\<open>exp\<close> or \<^verbatim>\<open>nbf\<close> is not a
  number.
\<close>

datatype js_error =
    InvalidKeyLength
  | InvalidIVLength
  | DataNotMultipleOfBlockLength
  | ClaimNotANumber

text \<open>
  The cipher keeps its key, the last ciphertext block (the initialization vector at
  first), the bytes it has been given that do not fill a block yet, and the padding flag,
  which is on when the cipher is created.
\<close>

record cipher =
  ckey :: buffer
  chain :: block
  pending :: buffer
  auto_padding :: bool

definition createCipheriv :: "buffer \<Rightarrow> buffer \<Rightarrow> js_error + cipher" where
  "createCipheriv k iv =
     (if length k \<noteq> 32 then Inl InvalidKeyLength
      else if length iv \<noteq> 16 then Inl InvalidIVLength
      else Inr \<lparr>ckey = k, chain = block_of_bytes iv, pending = [], auto_padding = True\<rparr>)"

definition setAutoPadding :: "bool \<Rightarrow> cipher \<Rightarrow> cipher" where
  "setAutoPadding flag c = c\<lparr>auto_padding := flag\<rparr>"

text \<open>
  Encrypting the whole blocks at the front of the data, each one XORed with the
  ciphertext block before it. The result is the last ciphertext block, the ciphertext and
  the bytes left over.
\<close>

function encrypt_blocks :: "(block \<Rightarrow> block) \<Rightarrow> block \<Rightarrow> buffer \<Rightarrow> block \<times> buffer \<times> buffer" where
  "encrypt_blocks E prev data =
     (if length data < 16 then (prev, [], data)
      else
        let c = E (block_of_bytes (take 16 data) XOR prev);
            (last_block, out, rest) = encrypt_blocks E c (drop 16 data)
        in (last_block, bytes_of_block c @ out, rest))"
  by pat_completeness auto
termination
  by (relation "measure (\<lambda>(E, prev, data). length data)") auto

declare encrypt_blocks.simps [simp del]

definition update :: "platform \<Rightarrow> cipher \<Rightarrow> buffer \<Rightarrow> cipher \<times> buffer" where
  "update pf c data =
     (let (last_block, out, rest) = encrypt_blocks (aes256_encrypt pf (ckey c)) (chain c) (pending c @ data)
      in (c\<lparr>chain := last_block, pending := rest\<rparr>, out))"

text \<open>
  \<^verbatim>\<open>final()\<close> pads the pending bytes to a block (PKCS#7) and encrypts it when
  automatic padding is on. With padding off it returns nothing when no byte is pending
  and throws otherwise.
\<close>

definition final :: "platform \<Rightarrow> cipher \<Rightarrow> js_error + buffer" where
  "final pf c =
     (if auto_padding c then
        (let n = 16 - length (pending c);
             padded = pending c @ replicate n (of_nat n)
         in Inr (bytes_of_block (aes256_encrypt pf (ckey c) (block_of_bytes padded XOR chain c))))
      else if pending c = [] then Inr []
      else Inl DataNotMultipleOfBlockLength)"

subsection \<open>JSON values\<close>

text \<open>
  The objects the handler builds are JSON values; an object keeps its properties in the
  order in which they were written.
\<close>

datatype json =
    JNull
  | JBool bool
  | JNum int
  | JStr string
  | JArr "json list"
  | JObj "(string \<times> json) list"

subsection \<open>The catalog and the secrets\<close>

text \<open>
  A content key of a video: the key identifier as a string and the key in base64. A
  video has a list of content keys and, for some videos, a hardcoded license token. The
  secrets are the identifier of the communication key and the key itself in hexadecimal.
\<close>

record content_key =
  keyId :: string
  key :: string

record video =
  licenseToken :: "string option"
  keys :: "content_key list"

record secrets =
  communicationKeyId :: string
  communicationKey :: string

subsection \<open>Encrypting one content key (the callback of \<^verbatim>\<open>video.keys.forEach\<close>)\<close>

definition wrap_key :: "platform \<Rightarrow> buffer \<Rightarrow> content_key \<Rightarrow> js_error + json" where
  "wrap_key pf communicationKeyAsBuffer k =
     (let keyAsBuffer = from_base64 pf (key k);
          keyIdAsBuffer = uuid_parse (keyId k)
      in case createCipheriv communicationKeyAsBuffer keyIdAsBuffer of
           Inl e \<Rightarrow> Inl e
         | Inr encryptor0 \<Rightarrow>
             (let encryptor1 = setAutoPadding False encryptor0;
                  (encryptor2, part1) = update pf encryptor1 keyAsBuffer
              in case final pf encryptor2 of
                   Inl e \<Rightarrow> Inl e
                 | Inr part2 \<Rightarrow>
                     Inr (JObj [(''id'', JStr (keyId k)),
                                (''encrypted_key'', JStr (base64_encode (part1 @ part2)))])))"

subsection \<open>CBC encryption as the textbook has it\<close>

text \<open>
  The plaintext is cut into blocks of 16 bytes; every block is XORed with the ciphertext
  block before it (the first one with the initialization vector) and encrypted. This
  definition follows the specification's words and is compared with the cipher object
  above.
\<close>

definition blocks_of :: "buffer \<Rightarrow> block list" where
  "blocks_of bs = map (\<lambda>i. block_of_bytes (take 16 (drop (16 * i) bs))) [0..<length bs div 16]"

fun cbc_chain :: "(block \<Rightarrow> block) \<Rightarrow> block \<Rightarrow> block list \<Rightarrow> block list" where
  "cbc_chain E iv [] = []"
| "cbc_chain E iv (p # ps) = E (p XOR iv) # cbc_chain E (E (p XOR iv)) ps"

definition cbc_encrypt_nopad :: "(block \<Rightarrow> block) \<Rightarrow> buffer \<Rightarrow> buffer \<Rightarrow> buffer" where
  "cbc_encrypt_nopad E iv plain =
     concat (map bytes_of_block (cbc_chain E (block_of_bytes iv) (blocks_of plain)))"

subsection \<open>\<^verbatim>\<open>JSON.stringify\<close>\<close>

text \<open>
  Strings are kept as their UTF-8 bytes. \<^verbatim>\<open>JSON.stringify\<close> puts a string between
  double quotes and escapes the double quote, the backslash and the control characters;
  it writes a number in decimal (the numbers of a token are integers), an array between
  brackets and an object between braces, its properties in their order, with no white
  space.
\<close>

definition hex_char :: "nat \<Rightarrow> char" where
  "hex_char n = ''0123456789abcdef'' ! (n mod 16)"

definition escape_char :: "char \<Rightarrow> string" where
  "escape_char c =
     (let n = of_char c :: nat
      in if c = CHR ''\"'' then [CHR 0x5C, CHR ''\"'']
         else if n = 0x5C then [CHR 0x5C, CHR 0x5C]
         else if n = 8 then [CHR 0x5C, CHR ''b'']
         else if n = 12 then [CHR 0x5C, CHR ''f'']
         else if n = 10 then [CHR 0x5C, CHR ''n'']
         else if n = 13 then [CHR 0x5C, CHR ''r'']
         else if n = 9 then [CHR 0x5C, CHR ''t'']
         else if n < 32 then [CHR 0x5C, CHR ''u'', CHR ''0'', CHR ''0'', hex_char (n div 16), hex_char n]
         else [c])"

definition quote :: "string \<Rightarrow> string" where
  "quote s = [CHR ''\"''] @ concat (map escape_char s) @ [CHR ''\"'']"

definition digit_char :: "nat \<Rightarrow> char" where
  "digit_char n = ''0123456789'' ! (n mod 10)"

function show_nat :: "nat \<Rightarrow> string" where
  "show_nat n = (if n < 10 then [digit_char n] else show_nat (n div 10) @ [digit_char n])"
  by pat_completeness auto
termination
  by (relation "measure id") auto

declare show_nat.simps [simp del]

definition show_int :: "int \<Rightarrow> string" where
  "show_int i = (if i < 0 then CHR ''-'' # show_nat (nat (- i)) else show_nat (nat i))"

fun join :: "string \<Rightarrow> string list \<Rightarrow> string" where
  "join sep [] = []"
| "join sep [x] = x"
| "join sep (x # y # ys) = x @ sep @ join sep (y # ys)"

fun stringify :: "json \<Rightarrow> string" where
  "stringify JNull = ''null''"
| "stringify (JBool b) = (if b then ''true'' else ''false'')"
| "stringify (JNum i) = show_int i"
| "stringify (JStr s) = quote s"
| "stringify (JArr xs) = ''['' @ join '','' (map stringify xs) @ '']''"
| "stringify (JObj kvs) =
     ''{'' @ join '','' (map (\<lambda>kv. quote (fst kv) @ '':'' @ stringify (snd kv)) kvs) @ ''}''"

subsection \<open>\<^verbatim>\<open>jwt.sign\<close> of jsonwebtoken with HS256\<close>

text \<open>
  The base64url encoding of the token's segments is the base64 encoding with the padding
  removed, \<^verbatim>\<open>+\<close> replaced by \<^verbatim>\<open>-\<close> and \<^verbatim>\<open>/\<close> by \<^verbatim>\<open>_\<close>.
\<close>

definition url_char :: "char \<Rightarrow> char" where
  "url_char c = (if c = CHR ''+'' then CHR ''-'' else if c = CHR ''/'' then CHR ''_'' else c)"

definition base64url_encode :: "buffer \<Rightarrow> string" where
  "base64url_encode bs = map url_char (filter (\<lambda>c. c \<noteq> CHR ''='') (base64_encode bs))"

definition bytes_of_string :: "string \<Rightarrow> buffer" where
  "bytes_of_string s = map (\<lambda>c. of_nat (of_char c)) s"

text \<open>
  Assigning to a property of an object: the value is replaced where the property exists,
  and the property is added at the end where it does not.
\<close>

fun set_property :: "string \<Rightarrow> json \<Rightarrow> (string \<times> json) list \<Rightarrow> (string \<times> json) list" where
  "set_property k v [] = [(k, v)]"
| "set_property k v ((k', v') # rest) =
     (if k' = k then (k, v) # rest else (k', v') # set_property k v rest)"

fun truthy :: "json \<Rightarrow> bool" where
  "truthy JNull = False"
| "truthy (JBool b) = b"
| "truthy (JNum i) = (i \<noteq> 0)"
| "truthy (JStr s) = (s \<noteq> [])"
| "truthy (JArr xs) = True"
| "truthy (JObj kvs) = True"

text \<open>
  \<^verbatim>\<open>jwt.sign(payload, secret, {"algorithm": "HS256"})\<close> for an object payload. The
  library first validates the registered claims of the payload: \<^verbatim>\<open>iat\<close>,
  \<^verbatim>\<open>exp\<close> and \<^verbatim>\<open>nbf\<close>, where present, must be numbers, or it throws. With no
  \<^verbatim>\<open>noTimestamp\<close> option it then sets the claim \<^verbatim>\<open>iat\<close> of the payload to the time
  of signing in seconds (\<^verbatim>\<open>payload.iat || Math.floor(Date.now() / 1000)\<close>).
  The token is the base64url of the header \<^verbatim>\<open>{"alg":"HS256","typ":"JWT"}\<close>, a dot, the
  base64url of the payload, a dot, and the base64url of the HMAC of everything before
  the second dot. \<open>date_now\<close> is what \<^verbatim>\<open>Date.now()\<close> returns at the signing. (Old
  versions of the library write the two properties of the header in the other order; no
  property stated below depends on it.)
\<close>

definition jwt_header :: json where
  "jwt_header = JObj [(''alg'', JStr ''HS256''), (''typ'', JStr ''JWT'')]"

definition jwt_payload :: "(string \<times> json) list \<Rightarrow> int \<Rightarrow> json" where
  "jwt_payload claims date_now =
     (let timestamp =
            (case map_of claims ''iat'' of
               Some v \<Rightarrow> if truthy v then v else JNum (date_now div 1000)
             | None \<Rightarrow> JNum (date_now div 1000))
      in JObj (set_property ''iat'' timestamp claims))"

definition jws_sign :: "platform \<Rightarrow> json \<Rightarrow> json \<Rightarrow> buffer \<Rightarrow> string" where
  "jws_sign pf header payload secret =
     (let securedInput =
            base64url_encode (bytes_of_string (stringify header)) @ ''.'' @
            base64url_encode (bytes_of_string (stringify payload));
          signature = base64url_encode (hmac_sha256 pf secret (bytes_of_string securedInput))
      in securedInput @ ''.'' @ signature)"

fun is_number :: "json \<Rightarrow> bool" where
  "is_number (JNum i) = True"
| "is_number _ = False"

definition valid_claim :: "(string \<times> json) list \<Rightarrow> string \<Rightarrow> bool" where
  "valid_claim claims c = (case map_of claims c of None \<Rightarrow> True | Some v \<Rightarrow> is_number v)"

definition jwt_token :: "platform \<Rightarrow> (string \<times> json) list \<Rightarrow> buffer \<Rightarrow> int \<Rightarrow> string" where
  "jwt_token pf claims secret date_now = jws_sign pf jwt_header (jwt_payload claims date_now) secret"

definition jwt_sign :: "platform \<Rightarrow> (string \<times> json) list \<Rightarrow> buffer \<Rightarrow> int \<Rightarrow> js_error + string" where
  "jwt_sign pf claims secret date_now =
     (if valid_claim claims ''iat'' \<and> valid_claim claims ''exp'' \<and> valid_claim claims ''nbf''
      then Inr (jwt_token pf claims secret date_now)
      else Inl ClaimNotANumber)"

subsection \<open>The handler \<^verbatim>\<open>processGet\<close>\<close>

text \<open>
  The handler works on its surroundings: the video database, the secret management, the
  clock, the cipher, the console, the signing library and the response. Every such call
  is recorded as an event, in the order in which the calls happen. The run of a handler
  is its list of events and the error it has thrown, if any.
\<close>

datatype event =
    Called_getVideoByName string
  | Called_areSecretsAvailable
  | Called_getSecrets
  | Called_moment
  | Called_createCipheriv buffer buffer
  | Console_log string
  | Called_jwt_sign json
  | Response_status nat
  | Response_send string
  | Response_json json

record run =
  trace :: "event list"
  thrown :: "js_error option"

text \<open>
  The surroundings of one request: what the video database and the secret management
  answer, what \<^verbatim>\<open>moment()\<close> reads from the clock and what \<^verbatim>\<open>Date.now()\<close> returns
  inside \<^verbatim>\<open>jwt.sign\<close> (both in milliseconds since the epoch).
\<close>

record env =
  getVideoByName :: "string \<Rightarrow> video option"
  areSecretsAvailable :: bool
  getSecrets :: secrets
  moment_now :: int
  date_now :: int

record request =
  videoName :: string

definition NO_SUCH_VIDEO_STATUS_CODE :: nat where
  "NO_SUCH_VIDEO_STATUS_CODE = 400"

definition NEED_TO_KNOW_SECRETS_STATUS_CODE :: nat where
  "NEED_TO_KNOW_SECRETS_STATUS_CODE = 500"

text \<open>
  \<^verbatim>\<open>video.keys.forEach\<close>: the keys are encrypted one after the other and pushed onto
  \<^verbatim>\<open>message.keys\<close>; an error thrown by the callback ends the loop.
\<close>

fun wrap_keys ::
  "platform \<Rightarrow> buffer \<Rightarrow> content_key list \<Rightarrow> json list \<Rightarrow> event list \<Rightarrow> (js_error + json list) \<times> event list" where
  "wrap_keys pf communicationKeyAsBuffer [] message_keys tr = (Inr message_keys, tr)"
| "wrap_keys pf communicationKeyAsBuffer (k # ks) message_keys tr =
     (let tr' = tr @ [Called_createCipheriv communicationKeyAsBuffer (uuid_parse (keyId k))]
      in case wrap_key pf communicationKeyAsBuffer k of
           Inl e \<Rightarrow> (Inl e, tr')
         | Inr wrapped \<Rightarrow> wrap_keys pf communicationKeyAsBuffer ks (message_keys @ [wrapped]) tr')"

text \<open>The entitlement message and the envelope, as the two object literals build them.\<close>

definition entitlement_message :: "string \<Rightarrow> string \<Rightarrow> json list \<Rightarrow> json" where
  "entitlement_message begin_date expiration_date message_keys =
     JObj [(''type'', JStr ''entitlement_message''),
           (''begin_date'', JStr begin_date),
           (''expiration_date'', JStr expiration_date),
           (''keys'', JArr message_keys)]"

definition envelope_fields :: "string \<Rightarrow> json \<Rightarrow> string \<Rightarrow> string \<Rightarrow> (string \<times> json) list" where
  "envelope_fields com_key_id message begin_date expiration_date =
     [(''version'', JNum 1),
      (''com_key_id'', JStr com_key_id),
      (''message'', message),
      (''begin_date'', JStr begin_date),
      (''expiration_date'', JStr expiration_date)]"

text \<open>
  The part of the handler that generates a token, from the check of the secrets to the
  response; \<open>tr\<close> are the events so far.
\<close>

definition generate_token :: "platform \<Rightarrow> env \<Rightarrow> video \<Rightarrow> event list \<Rightarrow> run" where
  "generate_token pf e v tr =
     (if \<not> areSecretsAvailable e then
        \<lparr>trace = tr @ [Called_areSecretsAvailable,
                        Console_log ''ERROR: You must configure the secrets file to generate license tokens.'',
                        Response_status NEED_TO_KNOW_SECRETS_STATUS_CODE,
                        Response_send ''You must configure the secrets file to generate license tokens.''],
         thrown = None\<rparr>
      else
        let scrts = getSecrets e;
            communicationKeyAsBuffer = from_hex pf (communicationKey scrts);
            now = moment_now e;
            validFrom = add_days pf (- 1) now;
            validTo = add_days pf 1 now;
            tr1 = tr @ [Called_areSecretsAvailable, Called_getSecrets, Called_moment]
        in case wrap_keys pf communicationKeyAsBuffer (keys v) [] tr1 of
             (Inl err, tr2) \<Rightarrow> \<lparr>trace = tr2, thrown = Some err\<rparr>
           | (Inr message_keys, tr2) \<Rightarrow>
               (let message = entitlement_message (toISOString pf validFrom) (toISOString pf validTo) message_keys;
                    envelope = envelope_fields (communicationKeyId scrts) message
                                 (toISOString pf validFrom) (toISOString pf validTo);
                    tr3 = tr2 @
                      [Console_log (''Creating license token with payload: '' @ stringify (JObj envelope)),
                       Called_jwt_sign (JObj envelope)]
                in case jwt_sign pf envelope communicationKeyAsBuffer (date_now e) of
                     Inl err \<Rightarrow> \<lparr>trace = tr3, thrown = Some err\<rparr>
                   | Inr token \<Rightarrow>
                       \<lparr>trace = tr3 @ [Response_json (JStr token)], thrown = None\<rparr>))"

text \<open>
  \<^verbatim>\<open>if (video.licenseToken)\<close>: the token counts when the video has one and it is not
  the empty string.
\<close>

definition truthy_licenseToken :: "video \<Rightarrow> string option" where
  "truthy_licenseToken v =
     (case licenseToken v of
        Some token \<Rightarrow> if token \<noteq> [] then Some token else None
      | None \<Rightarrow> None)"

definition processGet :: "platform \<Rightarrow> env \<Rightarrow> request \<Rightarrow> run" where
  "processGet pf e req =
     (let tr = [Called_getVideoByName (videoName req)]
      in case getVideoByName e (videoName req) of
           None \<Rightarrow>
             \<lparr>trace = tr @ [Response_status NO_SUCH_VIDEO_STATUS_CODE, Response_send ''No such video''],
              thrown = None\<rparr>
         | Some v \<Rightarrow>
             (case truthy_licenseToken v of
                Some token \<Rightarrow> \<lparr>trace = tr @ [Response_json (JStr token)], thrown = None\<rparr>
              | None \<Rightarrow> generate_token pf e v tr))"

subsection \<open>Reading a run\<close>

text \<open>
  The status of the response is 200 unless the handler has set one; the body is what the
  handler has sent, if anything. The envelopes of a run are the payloads given to
  \<^verbatim>\<open>jwt.sign\<close>, and its wrappings are the ciphers created.
\<close>

datatype body = Text string | Json json

fun statuses :: "event list \<Rightarrow> nat list" where
  "statuses [] = []"
| "statuses (Response_status n # tr) = n # statuses tr"
| "statuses (_ # tr) = statuses tr"

fun bodies :: "event list \<Rightarrow> body list" where
  "bodies [] = []"
| "bodies (Response_send s # tr) = Text s # bodies tr"
| "bodies (Response_json j # tr) = Json j # bodies tr"
| "bodies (_ # tr) = bodies tr"

fun signed_payloads :: "event list \<Rightarrow> json list" where
  "signed_payloads [] = []"
| "signed_payloads (Called_jwt_sign j # tr) = j # signed_payloads tr"
| "signed_payloads (_ # tr) = signed_payloads tr"

fun ciphers_created :: "event list \<Rightarrow> (buffer \<times> buffer) list" where
  "ciphers_created [] = []"
| "ciphers_created (Called_createCipheriv k iv # tr) = (k, iv) # ciphers_created tr"
| "ciphers_created (_ # tr) = ciphers_created tr"

fun console :: "event list \<Rightarrow> string list" where
  "console [] = []"
| "console (Console_log s # tr) = s # console tr"
| "console (_ # tr) = console tr"

definition response_status :: "event list \<Rightarrow> nat" where
  "response_status tr = last (200 # statuses tr)"

text \<open>Looking a property of an object up, and the elements of an array.\<close>

fun property :: "string \<Rightarrow> json \<Rightarrow> json option" where
  "property k (JObj kvs) = map_of kvs k"
| "property k _ = None"

fun property_names :: "json \<Rightarrow> string list" where
  "property_names (JObj kvs) = map fst kvs"
| "property_names _ = []"

fun members :: "json \<Rightarrow> (string \<times> json) list" where
  "members (JObj kvs) = kvs"
| "members _ = []"

fun without_property :: "string \<Rightarrow> json \<Rightarrow> json" where
  "without_property k (JObj kvs) = JObj (filter (\<lambda>kv. fst kv \<noteq> k) kvs)"
| "without_property k j = j"

fun elements :: "json \<Rightarrow> json list" where
  "elements (JArr xs) = xs"
| "elements _ = []"

fun lookup_path :: "string list \<Rightarrow> json \<Rightarrow> json option" where
  "lookup_path [] j = Some j"
| "lookup_path (k # ks) j = (case property k j of None \<Rightarrow> None | Some j' \<Rightarrow> lookup_path ks j')"

definition envelope_keys :: "json \<Rightarrow> json list" where
  "envelope_keys envelope =
     (case lookup_path [''message'', ''keys''] envelope of None \<Rightarrow> [] | Some ks \<Rightarrow> elements ks)"

text \<open>The token of a run is the string that the handler has sent as JSON.\<close>

fun tokens :: "event list \<Rightarrow> string list" where
  "tokens [] = []"
| "tokens (Response_json (JStr s) # tr) = s # tokens tr"
| "tokens (_ # tr) = tokens tr"

text \<open>
  Names for what the handler computes on the way: the communication key as a buffer, the
  two dates of the validity window as strings, the envelope that is built around a list
  of wrapped keys, and the calls to \<^verbatim>\<open>crypto.createCipheriv\<close> that a list of content
  keys causes.
\<close>

definition communicationKeyAsBuffer :: "platform \<Rightarrow> env \<Rightarrow> buffer" where
  "communicationKeyAsBuffer pf e = from_hex pf (communicationKey (getSecrets e))"

definition begin_date :: "platform \<Rightarrow> env \<Rightarrow> string" where
  "begin_date pf e = toISOString pf (add_days pf (- 1) (moment_now e))"

definition expiration_date :: "platform \<Rightarrow> env \<Rightarrow> string" where
  "expiration_date pf e = toISOString pf (add_days pf 1 (moment_now e))"

definition built_envelope :: "platform \<Rightarrow> env \<Rightarrow> json list \<Rightarrow> (string \<times> json) list" where
  "built_envelope pf e ws =
     envelope_fields (communicationKeyId (getSecrets e))
       (entitlement_message (begin_date pf e) (expiration_date pf e) ws)
       (begin_date pf e) (expiration_date pf e)"

definition cipher_calls :: "buffer \<Rightarrow> content_key list \<Rightarrow> event list" where
  "cipher_calls ck ks = map (\<lambda>k. Called_createCipheriv ck (uuid_parse (keyId k))) ks"

subsection \<open>The canonical string of a UUID, and what a wrapped key is\<close>

text \<open>
  These definitions follow the specification's words. A UUID is a 128-bit value; its
  canonical string has the 32 hexadecimal digits of its 16 bytes, the most significant
  byte first, in lower case and in groups of 8, 4, 4, 4 and 12 digits with hyphens
  between them. \<open>upper_char\<close> is \<^verbatim>\<open>toUpperCase\<close> on ASCII letters. The wrapped key of
  a content key has the identifier of the key as \<^verbatim>\<open>id\<close> and, as
  \<^verbatim>\<open>encrypted_key\<close>, the base64 of the CBC encryption of the key's bytes under the
  communication key, with the bytes of the identifier as the initialization vector.
\<close>

definition hex_byte :: "byte \<Rightarrow> string" where
  "hex_byte b = [hex_char (unat b div 16), hex_char (unat b)]"

definition hex_string :: "buffer \<Rightarrow> string" where
  "hex_string bs = concat (map hex_byte bs)"

definition uuid_string :: "block \<Rightarrow> string" where
  "uuid_string u =
     hex_string (take 4 (bytes_of_block u)) @ ''-'' @
     hex_string (take 2 (drop 4 (bytes_of_block u))) @ ''-'' @
     hex_string (take 2 (drop 6 (bytes_of_block u))) @ ''-'' @
     hex_string (take 2 (drop 8 (bytes_of_block u))) @ ''-'' @
     hex_string (drop 10 (bytes_of_block u))"

definition upper_char :: "char \<Rightarrow> char" where
  "upper_char c =
     (if 97 \<le> (of_char c :: nat) \<and> (of_char c :: nat) \<le> 122 then char_of (of_char c - 32 :: nat) else c)"

definition wrapped_key :: "platform \<Rightarrow> buffer \<Rightarrow> content_key \<Rightarrow> json" where
  "wrapped_key pf ck k =
     JObj [(''id'', JStr (keyId k)),
           (''encrypted_key'',
            JStr (base64_encode
              (cbc_encrypt_nopad (aes256_encrypt pf ck) (uuid_parse (keyId k)) (from_base64 pf (key k)))))]"

subsection \<open>Taking a token apart\<close>

text \<open>
  \<^verbatim>\<open>token.split(".")\<close>, and the decoding of base64url: the inverse of the encoding
  above, which refuses a character outside the alphabet and a length that no encoding
  has.
\<close>

fun split_on :: "char \<Rightarrow> string \<Rightarrow> string list" where
  "split_on sep [] = [[]]"
| "split_on sep (c # cs) =
     (if c = sep then [] # split_on sep cs
      else case split_on sep cs of
             [] \<Rightarrow> [[c]]
           | w # ws \<Rightarrow> (c # w) # ws)"

definition b64url_chars :: string where
  "b64url_chars = ''ABCDEFGHIJKLMNOPQRSTUVWXYZabcdefghijklmnopqrstuvwxyz0123456789-_''"

fun index_of :: "'a \<Rightarrow> 'a list \<Rightarrow> nat option" where
  "index_of x [] = None"
| "index_of x (y # ys) = (if x = y then Some 0 else map_option Suc (index_of x ys))"

fun sextets :: "string \<Rightarrow> nat list option" where
  "sextets [] = Some []"
| "sextets (c # cs) =
     (case (index_of c b64url_chars, sextets cs) of
        (Some n, Some ns) \<Rightarrow> Some (n # ns)
      | _ \<Rightarrow> None)"

fun bytes_of_sextets :: "nat list \<Rightarrow> buffer option" where
  "bytes_of_sextets [] = Some []"
| "bytes_of_sextets [a] = None"
| "bytes_of_sextets [a, b] = Some [of_nat ((a * 262144 + b * 4096) div 65536)]"
| "bytes_of_sextets [a, b, c] =
     (let n = a * 262144 + b * 4096 + c * 64
      in Some [of_nat (n div 65536), of_nat (n div 256)])"
| "bytes_of_sextets (a # b # c # d # rest) =
     (let n = a * 262144 + b * 4096 + c * 64 + d
      in map_option (\<lambda>bs. [of_nat (n div 65536), of_nat (n div 256), of_nat n] @ bs)
           (bytes_of_sextets rest))"

definition base64url_decode :: "string \<Rightarrow> buffer option" where
  "base64url_decode s = (case sextets s of None \<Rightarrow> None | Some ns \<Rightarrow> bytes_of_sextets ns)"

definition string_of_bytes :: "buffer \<Rightarrow> string" where
  "string_of_bytes bs = map (\<lambda>b. char_of (unat b)) bs"

subsection \<open>Reading JSON back\<close>

text \<open>
  To say what the payload of a token is, the text that \<^verbatim>\<open>JSON.stringify\<close> writes is
  read back: \<open>parse_json\<close> reads compact JSON (no white space; numbers are integers;
  of the escapes \<^verbatim>\<open>\uXXXX\<close> it reads those below \<^verbatim>\<open>\u0080\<close>). The functions that
  call each other take the number of nested calls they may make, which the length of
  the text bounds.
\<close>

definition unescape :: "char \<Rightarrow> char option" where
  "unescape c =
     (if c = CHR ''\"'' then Some CHR ''\"''
      else if c = CHR 0x5C then Some (CHR 0x5C)
      else if c = CHR ''/'' then Some CHR ''/''
      else if c = CHR ''b'' then Some (CHR 0x08)
      else if c = CHR ''f'' then Some (CHR 0x0C)
      else if c = CHR ''n'' then Some (CHR 0x0A)
      else if c = CHR ''r'' then Some (CHR 0x0D)
      else if c = CHR ''t'' then Some (CHR 0x09)
      else None)"

definition prepend :: "'a \<Rightarrow> ('a list \<times> string) option \<Rightarrow> ('a list \<times> string) option" where
  "prepend x r = (case r of None \<Rightarrow> None | Some (xs, rest) \<Rightarrow> Some (x # xs, rest))"

text \<open>The characters of a string up to its closing quote, and the text after it.\<close>

fun parse_chars :: "string \<Rightarrow> (string \<times> string) option" where
  "parse_chars [] = None"
| "parse_chars (c # cs) =
     (if c = CHR ''\"'' then Some ([], cs)
      else if c = CHR 0x5C then
        (case cs of
           [] \<Rightarrow> None
         | d # ds \<Rightarrow>
             if d = CHR ''u'' then
               (case ds of
                  h1 # h2 # h3 # h4 # rest \<Rightarrow>
                    (case (hex_digit h1, hex_digit h2, hex_digit h3, hex_digit h4) of
                       (Some a, Some b, Some x, Some y) \<Rightarrow>
                         if a = 0 \<and> b = 0 \<and> x < 8 then prepend (char_of (16 * x + y)) (parse_chars rest)
                         else None
                     | _ \<Rightarrow> None)
                | _ \<Rightarrow> None)
             else
               (case unescape d of
                  None \<Rightarrow> None
                | Some ch \<Rightarrow> prepend ch (parse_chars ds)))
      else if (of_char c :: nat) < 32 then None
      else prepend c (parse_chars cs))"

definition is_digit :: "char \<Rightarrow> bool" where
  "is_digit c \<longleftrightarrow> 48 \<le> (of_char c :: nat) \<and> (of_char c :: nat) \<le> 57"

definition nat_of_digits :: "string \<Rightarrow> nat" where
  "nat_of_digits ds = foldl (\<lambda>a c. 10 * a + (of_char c - 48)) 0 ds"

definition parse_nat :: "string \<Rightarrow> (nat \<times> string) option" where
  "parse_nat s =
     (if takeWhile is_digit s = [] then None
      else Some (nat_of_digits (takeWhile is_digit s), dropWhile is_digit s))"

definition parse_number :: "string \<Rightarrow> (json \<times> string) option" where
  "parse_number s =
     (case s of
        [] \<Rightarrow> None
      | c # cs \<Rightarrow>
          if c = CHR ''-'' then
            (case parse_nat cs of None \<Rightarrow> None | Some (n, rest) \<Rightarrow> Some (JNum (- int n), rest))
          else
            (case parse_nat s of None \<Rightarrow> None | Some (n, rest) \<Rightarrow> Some (JNum (int n), rest)))"

fun parse_value :: "nat \<Rightarrow> string \<Rightarrow> (json \<times> string) option"
  and parse_elements :: "nat \<Rightarrow> string \<Rightarrow> (json list \<times> string) option"
  and parse_members :: "nat \<Rightarrow> string \<Rightarrow> ((string \<times> json) list \<times> string) option" where
  "parse_value 0 s = None"
| "parse_value (Suc n) s =
     (case s of
        [] \<Rightarrow> None
      | c # cs \<Rightarrow>
          if c = CHR ''n'' then (if take 3 cs = ''ull'' then Some (JNull, drop 3 cs) else None)
          else if c = CHR ''t'' then (if take 3 cs = ''rue'' then Some (JBool True, drop 3 cs) else None)
          else if c = CHR ''f'' then (if take 4 cs = ''alse'' then Some (JBool False, drop 4 cs) else None)
          else if c = CHR ''\"'' then
            (case parse_chars cs of None \<Rightarrow> None | Some (str, rest) \<Rightarrow> Some (JStr str, rest))
          else if c = CHR ''['' then
            (if take 1 cs = '']'' then Some (JArr [], drop 1 cs)
             else case parse_elements n cs of None \<Rightarrow> None | Some (xs, rest) \<Rightarrow> Some (JArr xs, rest))
          else if c = CHR ''{'' then
            (if take 1 cs = ''}'' then Some (JObj [], drop 1 cs)
             else case parse_members n cs of None \<Rightarrow> None | Some (kvs, rest) \<Rightarrow> Some (JObj kvs, rest))
          else parse_number s)"
| "parse_elements 0 s = None"
| "parse_elements (Suc n) s =
     (case parse_value n s of
        None \<Rightarrow> None
      | Some (v, rest) \<Rightarrow>
          if take 1 rest = '','' then prepend v (parse_elements n (drop 1 rest))
          else if take 1 rest = '']'' then Some ([v], drop 1 rest)
          else None)"
| "parse_members 0 s = None"
| "parse_members (Suc n) s =
     (if take 1 s \<noteq> [CHR ''\"''] then None
      else case parse_chars (drop 1 s) of
        None \<Rightarrow> None
      | Some (k, rest) \<Rightarrow>
          if take 1 rest \<noteq> '':'' then None
          else case parse_value n (drop 1 rest) of
            None \<Rightarrow> None
          | Some (v, rest') \<Rightarrow>
              if take 1 rest' = '','' then prepend (k, v) (parse_members n (drop 1 rest'))
              else if take 1 rest' = ''}'' then Some ([(k, v)], drop 1 rest')
              else None)"

definition parse_json :: "string \<Rightarrow> json option" where
  "parse_json s =
     (case parse_value (Suc (length s)) s of
        Some (j, rest) \<Rightarrow> if rest = [] then Some j else None
      | None \<Rightarrow> None)"

text \<open>
  The payload of a token: the second of its three segments, decoded from base64url and
  read as JSON.
\<close>

definition token_payload :: "string \<Rightarrow> json option" where
  "token_payload token =
     (case split_on CHR ''.'' token of
        [header, payload, signature] \<Rightarrow>
          (case base64url_decode payload of
             None \<Rightarrow> None
           | Some bs \<Rightarrow> parse_json (string_of_bytes bs))
      | _ \<Rightarrow> None)"

text \<open>What a value costs to read back: one for itself and one for each element below it.\<close>

fun weight :: "json \<Rightarrow> nat" where
  "weight (JArr xs) = Suc (sum_list (map (\<lambda>x. Suc (weight x)) xs))"
| "weight (JObj kvs) = Suc (sum_list (map (\<lambda>kv. Suc (weight (snd kv))) kvs))"
| "weight _ = 1"

subsection \<open>A platform and a catalog to run the handler on\<close>

text \<open>
  The theorems below hold for every platform. To run the handler on concrete requests,
  this platform puts simple functions in the place of the library's: a block cipher that
  XORs the block with the first half of the key and adds one, a MAC that is the first 32
  bytes of key and message, decoders for well-formed base64 and hexadecimal, days of 24
  hours, and the UTC timestamp in the format \<^verbatim>\<open>YYYY-MM-DDTHH:mm:ss.SSSZ\<close> (for the
  years 0 to 9999).
\<close>

definition pad_nat :: "nat \<Rightarrow> nat \<Rightarrow> string" where
  "pad_nat w n = (let s = show_nat n in replicate (w - length s) CHR ''0'' @ s)"

text \<open>The civil date of a day number (days since 1970-01-01), computed era by era of 400 years.\<close>

definition year_of_era :: "int \<Rightarrow> int" where
  "year_of_era doe = (doe - doe div 1460 + doe div 36524 - doe div 146096) div 365"

definition day_of_year :: "int \<Rightarrow> int \<Rightarrow> int" where
  "day_of_year doe yoe = doe - (365 * yoe + yoe div 4 - yoe div 100)"

definition month_index :: "int \<Rightarrow> int" where
  "month_index doy = (5 * doy + 2) div 153"

definition month_of :: "int \<Rightarrow> int" where
  "month_of mp = (if mp < 10 then mp + 3 else mp - 9)"

definition day_of_month :: "int \<Rightarrow> int \<Rightarrow> int" where
  "day_of_month doy mp = doy - (153 * mp + 2) div 5 + 1"

definition year_of :: "int \<Rightarrow> int \<Rightarrow> int \<Rightarrow> int" where
  "year_of era yoe m = yoe + era * 400 + (if m \<le> 2 then 1 else 0)"

definition date_string :: "int \<Rightarrow> int \<Rightarrow> int \<Rightarrow> string" where
  "date_string y m d = pad_nat 4 (nat y) @ ''-'' @ pad_nat 2 (nat m) @ ''-'' @ pad_nat 2 (nat d)"

definition date_of_doy :: "int \<Rightarrow> int \<Rightarrow> int \<Rightarrow> string" where
  "date_of_doy era yoe doy =
     date_string (year_of era yoe (month_of (month_index doy))) (month_of (month_index doy))
       (day_of_month doy (month_index doy))"

definition date_of_doe :: "int \<Rightarrow> int \<Rightarrow> string" where
  "date_of_doe era doe = date_of_doy era (year_of_era doe) (day_of_year doe (year_of_era doe))"

definition demo_date :: "int \<Rightarrow> string" where
  "demo_date days = date_of_doe ((days + 719468) div 146097) ((days + 719468) mod 146097)"

definition demo_time :: "nat \<Rightarrow> string" where
  "demo_time ms =
     pad_nat 2 (ms div 3600000) @ '':'' @ pad_nat 2 (ms div 60000 mod 60) @ '':'' @
     pad_nat 2 (ms div 1000 mod 60) @ ''.'' @ pad_nat 3 (ms mod 1000)"

definition demo_iso :: "int \<Rightarrow> string" where
  "demo_iso t = demo_date (t div 86400000) @ ''T'' @ demo_time (nat (t mod 86400000)) @ ''Z''"

definition demo_from_base64 :: "string \<Rightarrow> buffer" where
  "demo_from_base64 s =
     (case base64url_decode (map url_char (filter (\<lambda>c. c \<noteq> CHR ''='') s)) of
        Some bs \<Rightarrow> bs
      | None \<Rightarrow> [])"

definition demo_platform :: platform where
  "demo_platform =
     \<lparr>aes256_encrypt = (\<lambda>k b. (b XOR block_of_bytes (take 16 k)) + 1),
      hmac_sha256 = (\<lambda>k m. take 32 (k @ m)),
      from_base64 = demo_from_base64,
      from_hex = hex_pairs,
      add_days = (\<lambda>n t. t + n * 86400000),
      toISOString = demo_iso\<rparr>"

text \<open>
  The catalog has four videos: \<^verbatim>\<open>demo1\<close> with one content key of 16 bytes,
  \<^verbatim>\<open>demo2\<close> with a hardcoded token, \<^verbatim>\<open>demo3\<close> whose second content key has 15
  bytes, and \<^verbatim>\<open>demo4\<close> with two content keys, the first of 32 bytes (two cipher
  blocks). The communication key has 32 bytes.
\<close>

definition demo_key :: content_key where
  "demo_key = \<lparr>keyId = ''00112233-4455-6677-8899-aabbccddeeff'', key = ''AAECAwQFBgcICQoLDA0ODw==''\<rparr>"

definition short_key :: content_key where
  "short_key = \<lparr>keyId = ''22222222-2222-2222-2222-222222222222'', key = ''AAECAwQFBgcICQoLDA0O''\<rparr>"

definition long_key :: content_key where
  "long_key =
     \<lparr>keyId = ''0f1e2d3c-4b5a-6978-8796-a5b4c3d2e1f0'',
      key = ''EBESExQVFhcYGRobHB0eHyAhIiMkJSYnKCkqKywtLi8=''\<rparr>"

definition demo_catalog :: "string \<Rightarrow> video option" where
  "demo_catalog n =
     (if n = ''demo1'' then Some \<lparr>licenseToken = None, keys = [demo_key]\<rparr>
      else if n = ''demo2'' then Some \<lparr>licenseToken = Some ''aaa.bbb.ccc'', keys = []\<rparr>
      else if n = ''demo3'' then Some \<lparr>licenseToken = None, keys = [demo_key, short_key]\<rparr>
      else if n = ''demo4'' then Some \<lparr>licenseToken = None, keys = [long_key, demo_key]\<rparr>
      else None)"

definition demo_secrets :: secrets where
  "demo_secrets =
     \<lparr>communicationKeyId = ''c1'',
      communicationKey = ''603deb1015ca71be2b73aef0857d77811f352c073b6108d72d9810a30914dff4''\<rparr>"

definition demo_env :: env where
  "demo_env =
     \<lparr>getVideoByName = demo_catalog,
      areSecretsAvailable = True,
      getSecrets = demo_secrets,
      moment_now = 1500000000000,
      date_now = 1500000000123\<rparr>"

text \<open>
  What the handler computes for \<^verbatim>\<open>demo1\<close> on this platform: the wrapped key, the
  envelope and the token.
\<close>

definition demo_wrapped_key :: json where
  "demo_wrapped_key =
     JObj [(''id'', JStr ''00112233-4455-6677-8899-aabbccddeeff''),
           (''encrypted_key'', JStr ''YC3LIFWaEc6r4w5ARa2Xcg=='')]"

definition demo_envelope :: "(string \<times> json) list" where
  "demo_envelope =
     [(''version'', JNum 1),
      (''com_key_id'', JStr ''c1''),
      (''message'',
       JObj [(''type'', JStr ''entitlement_message''),
             (''begin_date'', JStr ''2017-07-13T02:40:00.000Z''),
             (''expiration_date'', JStr ''2017-07-15T02:40:00.000Z''),
             (''keys'', JArr [demo_wrapped_key])]),
      (''begin_date'', JStr ''2017-07-13T02:40:00.000Z''),
      (''expiration_date'', JStr ''2017-07-15T02:40:00.000Z'')]"

definition demo_token :: string where
  "demo_token =
     ''eyJhbGciOiJIUzI1NiIsInR5cCI6IkpXVCJ9'' @ ''.'' @
     ''eyJ2ZXJzaW9uIjoxLCJjb21fa2V5X2lkIjoiYzEiLCJtZXNzYWdlIjp7InR5cGUiOiJlbnRpdGxlbWVudF9tZXNzYWdlIiwiYmVnaW5fZGF0ZSI6IjIwMTctMDctMTNUMDI6NDA6MDAuMDAwWiIsImV4cGlyYXRpb25fZGF0ZSI6IjIwMTctMDctMTVUMDI6NDA6MDAuMDAwWiIsImtleXMiOlt7ImlkIjoiMDAxMTIyMzMtNDQ1NS02Njc3LTg4OTktYWFiYmNjZGRlZWZmIiwiZW5jcnlwdGVkX2tleSI6IllDM0xJRldhRWM2cjR3NUFSYTJYY2c9PSJ9XX0sImJlZ2luX2RhdGUiOiIyMDE3LTA3LTEzVDAyOjQwOjAwLjAwMFoiLCJleHBpcmF0aW9uX2RhdGUiOiIyMDE3LTA3LTE1VDAyOjQwOjAwLjAwMFoiLCJpYXQiOjE1MDAwMDAwMDB9'' @ ''.'' @
     ''YD3rEBXKcb4rc67whX13gR81LAc7YQjXLZgQowkU3_Q''"

text \<open>
  A server in a time zone with daylight saving time. \<open>new_york_offset\<close> is the offset of
  \<^verbatim>\<open>America/New_York\<close> from UTC in milliseconds around 12 March 2017, when the clocks
  went from 02:00 to 03:00 (at 07:00 UTC) and the day had 23 hours. Adding calendar days
  keeps the time of day on the local clock, as \<^verbatim>\<open>moment\<close> does for a moment in local
  mode. The request of \<open>dst_env\<close> comes at noon local time on 11 March 2017.
\<close>

definition new_york_offset :: "int \<Rightarrow> int" where
  "new_york_offset t = (if t < 1489302000000 then - 18000000 else - 14400000)"

definition local_add_days :: "(int \<Rightarrow> int) \<Rightarrow> int \<Rightarrow> int \<Rightarrow> int" where
  "local_add_days offset n t = t + offset t + n * 86400000 - offset (t + n * 86400000)"

definition dst_platform :: platform where
  "dst_platform = demo_platform\<lparr>add_days := local_add_days new_york_offset\<rparr>"

definition dst_env :: env where
  "dst_env = demo_env\<lparr>moment_now := 1489251600000, date_now := 1489251600123\<rparr>"

section \<open>Lemmas\<close>

lemma length_bytes_of_block: "length (bytes_of_block w) = 16"
  by (simp add: bytes_of_block_def)

lemma length_uuid_parse: "length (uuid_parse s) = 16"
  by (simp add: uuid_parse_def Let_def)

lemma blocks_of_short: "length bs < 16 \<Longrightarrow> blocks_of bs = []"
  by (simp add: blocks_of_def)

lemma blocks_of_step:
  assumes "16 \<le> length bs"
  shows "blocks_of bs = block_of_bytes (take 16 bs) # blocks_of (drop 16 bs)"
proof -
  have n: "length bs div 16 = Suc ((length bs - 16) div 16)"
    using assms by (metis div_add_self2 le_add_diff_inverse2 zero_neq_numeral Suc_eq_plus1)
  show ?thesis
    unfolding blocks_of_def n length_drop
    by (simp add: upt_rec [of 0] map_Suc_upt [symmetric] del: upt_Suc add: add.commute)
qed

lemma encrypt_blocks_cbc:
  "encrypt_blocks E prev data =
     (last (prev # cbc_chain E prev (blocks_of data)),
      concat (map bytes_of_block (cbc_chain E prev (blocks_of data))),
      drop (16 * (length data div 16)) data)"
proof (induction E prev data rule: encrypt_blocks.induct)
  case (1 E prev data)
  show ?case
  proof (cases "length data < 16")
    case True
    then show ?thesis
      by (subst encrypt_blocks.simps) (simp add: blocks_of_short)
  next
    case False
    then have ge: "16 \<le> length data" by simp
    have d: "length data div 16 = Suc ((length data - 16) div 16)"
      using ge by (metis div_add_self2 le_add_diff_inverse2 zero_neq_numeral Suc_eq_plus1)
    show ?thesis
      using False "1.IH" [OF False refl]
      by (subst encrypt_blocks.simps) (simp add: blocks_of_step [OF ge] d Let_def add.commute)
  qed
qed

lemma encrypt_blocks_whole:
  assumes "length data mod 16 = 0"
  shows "encrypt_blocks E prev data =
     (last (prev # cbc_chain E prev (blocks_of data)),
      concat (map bytes_of_block (cbc_chain E prev (blocks_of data))), [])"
proof -
  have "16 * (length data div 16) = length data"
    using assms by presburger
  then show ?thesis by (simp add: encrypt_blocks_cbc)
qed

lemma encrypt_blocks_rest:
  assumes "length data mod 16 \<noteq> 0"
  shows "snd (snd (encrypt_blocks E prev data)) \<noteq> []"
proof -
  have "16 * (length data div 16) < length data"
    using assms by presburger
  then show ?thesis by (simp add: encrypt_blocks_cbc)
qed

lemma length_cbc_chain: "length (cbc_chain E iv ps) = length ps"
  by (induction ps arbitrary: iv) simp_all

lemma length_concat_blocks: "length (concat (map bytes_of_block bs)) = 16 * length bs"
  by (induction bs) (simp_all add: length_bytes_of_block)

lemma length_cbc_encrypt_nopad:
  "length (cbc_encrypt_nopad E iv plain) = 16 * (length plain div 16)"
  by (simp add: cbc_encrypt_nopad_def length_concat_blocks length_cbc_chain blocks_of_def)

lemma wrap_key_ok:
  assumes "length ck = 32" and "length (from_base64 pf (key k)) mod 16 = 0"
  shows "wrap_key pf ck k =
           Inr (JObj [(''id'', JStr (keyId k)),
                      (''encrypted_key'',
                       JStr (base64_encode
                         (cbc_encrypt_nopad (aes256_encrypt pf ck) (uuid_parse (keyId k))
                            (from_base64 pf (key k)))))])
         \<and> length (cbc_encrypt_nopad (aes256_encrypt pf ck) (uuid_parse (keyId k))
                     (from_base64 pf (key k))) = length (from_base64 pf (key k))
         \<and> length (uuid_parse (keyId k)) = 16"
proof -
  have len: "16 * (length (from_base64 pf (key k)) div 16) = length (from_base64 pf (key k))"
    using assms(2) by presburger
  have "wrap_key pf ck k =
           Inr (JObj [(''id'', JStr (keyId k)),
                      (''encrypted_key'',
                       JStr (base64_encode
                         (cbc_encrypt_nopad (aes256_encrypt pf ck) (uuid_parse (keyId k))
                            (from_base64 pf (key k)))))])"
    using assms(1)
    by (simp add: wrap_key_def createCipheriv_def length_uuid_parse setAutoPadding_def
        update_def final_def encrypt_blocks_whole [OF assms(2)] cbc_encrypt_nopad_def)
  then show ?thesis
    by (simp add: length_cbc_encrypt_nopad len length_uuid_parse)
qed

lemma wrap_key_malformed:
  assumes "length ck = 32" and "length (from_base64 pf (key k)) mod 16 \<noteq> 0"
  shows "wrap_key pf ck k = Inl DataNotMultipleOfBlockLength"
proof -
  obtain l out rest where eb:
    "encrypt_blocks (aes256_encrypt pf ck) (block_of_bytes (uuid_parse (keyId k)))
       (from_base64 pf (key k)) = (l, out, rest)"
    by (cases "encrypt_blocks (aes256_encrypt pf ck) (block_of_bytes (uuid_parse (keyId k)))
       (from_base64 pf (key k))") auto
  have "rest \<noteq> []"
    using encrypt_blocks_rest [OF assms(2), of "aes256_encrypt pf ck" "block_of_bytes (uuid_parse (keyId k))"]
    by (simp add: eb)
  then show ?thesis
    using assms(1)
    by (simp add: wrap_key_def createCipheriv_def length_uuid_parse setAutoPadding_def
        update_def final_def eb)
qed

lemma statuses_append: "statuses (a @ b) = statuses a @ statuses b"
  by (induction a rule: statuses.induct) simp_all

lemma bodies_append: "bodies (a @ b) = bodies a @ bodies b"
  by (induction a rule: bodies.induct) simp_all

lemma signed_payloads_append: "signed_payloads (a @ b) = signed_payloads a @ signed_payloads b"
  by (induction a rule: signed_payloads.induct) simp_all

lemma ciphers_created_append: "ciphers_created (a @ b) = ciphers_created a @ ciphers_created b"
  by (induction a rule: ciphers_created.induct) simp_all

lemma console_append: "console (a @ b) = console a @ console b"
  by (induction a rule: console.induct) simp_all

lemma tokens_append: "tokens (a @ b) = tokens a @ tokens b"
  by (induction a rule: tokens.induct) simp_all

lemmas reads_append =
  statuses_append bodies_append signed_payloads_append ciphers_created_append console_append
  tokens_append

lemma wrap_keys_Inr:
  "wrap_keys pf ck ks acc tr = (Inr ws, tr') \<Longrightarrow>
     (\<exists>new. ws = acc @ new \<and> map Inr new = map (wrap_key pf ck) ks) \<and>
     tr' = tr @ cipher_calls ck ks"
proof (induction ks arbitrary: acc tr)
  case Nil
  then show ?case by (simp add: cipher_calls_def)
next
  case (Cons k ks)
  from Cons.prems obtain w where w: "wrap_key pf ck k = Inr w"
    by (cases "wrap_key pf ck k") (simp_all add: Let_def)
  with Cons.prems have
    "wrap_keys pf ck ks (acc @ [w]) (tr @ [Called_createCipheriv ck (uuid_parse (keyId k))]) = (Inr ws, tr')"
    by (simp add: Let_def)
  from Cons.IH [OF this] obtain new where
    "ws = (acc @ [w]) @ new" "map Inr new = map (wrap_key pf ck) ks"
    "tr' = (tr @ [Called_createCipheriv ck (uuid_parse (keyId k))]) @ cipher_calls ck ks"
    by blast
  then show ?case
    using w by (auto simp: cipher_calls_def intro!: exI [of _ "w # new"])
qed

lemma wrap_keys_all_Inr:
  "map Inr new = map (wrap_key pf ck) ks \<Longrightarrow>
     wrap_keys pf ck ks acc tr = (Inr (acc @ new), tr @ cipher_calls ck ks)"
proof (induction ks arbitrary: acc tr new)
  case Nil
  then show ?case by (simp add: cipher_calls_def)
next
  case (Cons k ks)
  then obtain w new' where new: "new = w # new'" "wrap_key pf ck k = Inr w"
    "map Inr new' = map (wrap_key pf ck) ks"
    by (cases new) auto
  show ?case
    using Cons.IH [OF new(3), of "acc @ [w]" "tr @ [Called_createCipheriv ck (uuid_parse (keyId k))]"] new
    by (simp add: cipher_calls_def)
qed

lemma wrap_keys_trace:
  "\<exists>n. snd (wrap_keys pf ck ks acc tr) = tr @ cipher_calls ck (take n ks)"
proof (induction ks arbitrary: acc tr)
  case Nil
  then show ?case by (simp add: cipher_calls_def)
next
  case (Cons k ks)
  show ?case
  proof (cases "wrap_key pf ck k")
    case (Inl err)
    then have "snd (wrap_keys pf ck (k # ks) acc tr) = tr @ cipher_calls ck (take 1 (k # ks))"
      by (simp add: cipher_calls_def)
    then show ?thesis by blast
  next
    case (Inr w)
    from Cons.IH [of "acc @ [w]" "tr @ [Called_createCipheriv ck (uuid_parse (keyId k))]"]
    obtain n where
      "snd (wrap_keys pf ck ks (acc @ [w]) (tr @ [Called_createCipheriv ck (uuid_parse (keyId k))])) =
         (tr @ [Called_createCipheriv ck (uuid_parse (keyId k))]) @ cipher_calls ck (take n ks)"
      by blast
    with Inr have "snd (wrap_keys pf ck (k # ks) acc tr) = tr @ cipher_calls ck (take (Suc n) (k # ks))"
      by (simp add: cipher_calls_def)
    then show ?thesis by blast
  qed
qed

lemma reads_cipher_calls:
  "statuses (cipher_calls ck ks) = []" "bodies (cipher_calls ck ks) = []"
  "signed_payloads (cipher_calls ck ks) = []" "console (cipher_calls ck ks) = []"
  "tokens (cipher_calls ck ks) = []"
  "ciphers_created (cipher_calls ck ks) = map (\<lambda>k. (ck, uuid_parse (keyId k))) ks"
  by (induction ks) (simp_all add: cipher_calls_def)

lemma wrap_keys_Inl:
  "k \<in> set ks \<Longrightarrow> wrap_key pf ck k = Inl err \<Longrightarrow> \<exists>err'. fst (wrap_keys pf ck ks acc tr) = Inl err'"
proof (induction ks arbitrary: acc tr)
  case Nil
  then show ?case by simp
next
  case (Cons a ks)
  show ?case
  proof (cases "wrap_key pf ck a")
    case (Inl e)
    then show ?thesis by simp
  next
    case (Inr w)
    with Cons.prems have "k \<in> set ks" by auto
    from Cons.IH [OF this Cons.prems(2)] Inr show ?thesis by simp
  qed
qed

lemma wrap_keys_error_kind:
  "fst (wrap_keys pf ck ks acc tr) = Inl err \<Longrightarrow> \<exists>k \<in> set ks. wrap_key pf ck k = Inl err"
proof (induction ks arbitrary: acc tr)
  case Nil
  then show ?case by simp
next
  case (Cons a ks)
  then show ?case
    by (cases "wrap_key pf ck a") (auto simp: Let_def)
qed

lemma jwt_sign_built:
  "jwt_sign pf (built_envelope pf e ws) secret t = Inr (jwt_token pf (built_envelope pf e ws) secret t)"
  by (simp add: jwt_sign_def valid_claim_def built_envelope_def envelope_fields_def)

lemma generate_token_failure:
  assumes "areSecretsAvailable e"
    and "fst (wrap_keys pf (communicationKeyAsBuffer pf e) (keys v) [] (tr @ [Called_areSecretsAvailable, Called_getSecrets, Called_moment])) = Inl err"
  shows "\<exists>n. generate_token pf e v tr =
           \<lparr>trace = tr @ [Called_areSecretsAvailable, Called_getSecrets, Called_moment]
                      @ cipher_calls (communicationKeyAsBuffer pf e) (take n (keys v)),
            thrown = Some err\<rparr>"
proof -
  obtain n where
    "snd (wrap_keys pf (communicationKeyAsBuffer pf e) (keys v) [] (tr @ [Called_areSecretsAvailable, Called_getSecrets, Called_moment]))
       = (tr @ [Called_areSecretsAvailable, Called_getSecrets, Called_moment]) @ cipher_calls (communicationKeyAsBuffer pf e) (take n (keys v))"
    using wrap_keys_trace by blast
  with assms have
    "wrap_keys pf (communicationKeyAsBuffer pf e) (keys v) [] (tr @ [Called_areSecretsAvailable, Called_getSecrets, Called_moment])
       = (Inl err, (tr @ [Called_areSecretsAvailable, Called_getSecrets, Called_moment]) @ cipher_calls (communicationKeyAsBuffer pf e) (take n (keys v)))"
    by (metis prod.collapse)
  with assms(1) have "generate_token pf e v tr =
           \<lparr>trace = tr @ [Called_areSecretsAvailable, Called_getSecrets, Called_moment]
                      @ cipher_calls (communicationKeyAsBuffer pf e) (take n (keys v)),
            thrown = Some err\<rparr>"
    by (simp add: generate_token_def communicationKeyAsBuffer_def Let_def)
  then show ?thesis by blast
qed

lemma generate_token_success:
  assumes "areSecretsAvailable e"
    and "map Inr ws = map (wrap_key pf (communicationKeyAsBuffer pf e)) (keys v)"
  shows "generate_token pf e v tr =
           \<lparr>trace = tr @ [Called_areSecretsAvailable, Called_getSecrets, Called_moment]
                      @ cipher_calls (communicationKeyAsBuffer pf e) (keys v)
                      @ [Console_log (''Creating license token with payload: '' @ stringify (JObj (built_envelope pf e ws))),
                         Called_jwt_sign (JObj (built_envelope pf e ws)),
                         Response_json (JStr (jwt_token pf (built_envelope pf e ws) (communicationKeyAsBuffer pf e) (date_now e)))],
            thrown = None\<rparr>"
  using assms(1)
    wrap_keys_all_Inr [OF assms(2), of "[]" "tr @ [Called_areSecretsAvailable, Called_getSecrets, Called_moment]"]
    jwt_sign_built [of pf e ws "communicationKeyAsBuffer pf e" "date_now e"]
  by (simp add: generate_token_def communicationKeyAsBuffer_def Let_def built_envelope_def begin_date_def expiration_date_def)

lemma generate_token_cases:
  assumes "areSecretsAvailable e"
  obtains (failure) err n where
      "generate_token pf e v tr =
           \<lparr>trace = tr @ [Called_areSecretsAvailable, Called_getSecrets, Called_moment]
                      @ cipher_calls (communicationKeyAsBuffer pf e) (take n (keys v)),
            thrown = Some err\<rparr>"
      "\<exists>k \<in> set (keys v). wrap_key pf (communicationKeyAsBuffer pf e) k = Inl err"
  | (success) ws where
      "map Inr ws = map (wrap_key pf (communicationKeyAsBuffer pf e)) (keys v)"
      "generate_token pf e v tr =
           \<lparr>trace = tr @ [Called_areSecretsAvailable, Called_getSecrets, Called_moment]
                      @ cipher_calls (communicationKeyAsBuffer pf e) (keys v)
                      @ [Console_log (''Creating license token with payload: '' @ stringify (JObj (built_envelope pf e ws))),
                         Called_jwt_sign (JObj (built_envelope pf e ws)),
                         Response_json (JStr (jwt_token pf (built_envelope pf e ws) (communicationKeyAsBuffer pf e) (date_now e)))],
            thrown = None\<rparr>"
proof (cases "fst (wrap_keys pf (communicationKeyAsBuffer pf e) (keys v) [] (tr @ [Called_areSecretsAvailable, Called_getSecrets, Called_moment]))")
  case (Inl err)
  from generate_token_failure [OF assms Inl] wrap_keys_error_kind [OF Inl] failure
  show ?thesis by blast
next
  case (Inr ws)
  then have "wrap_keys pf (communicationKeyAsBuffer pf e) (keys v) [] (tr @ [Called_areSecretsAvailable, Called_getSecrets, Called_moment])
     = (Inr ws, snd (wrap_keys pf (communicationKeyAsBuffer pf e) (keys v) [] (tr @ [Called_areSecretsAvailable, Called_getSecrets, Called_moment])))"
    by (metis prod.collapse)
  from wrap_keys_Inr [OF this] have ws: "map Inr ws = map (wrap_key pf (communicationKeyAsBuffer pf e)) (keys v)"
    by simp
  from success [OF ws generate_token_success [OF assms ws]] show ?thesis .
qed

lemma generate_token_unavailable:
  "\<not> areSecretsAvailable e \<Longrightarrow>
     generate_token pf e v tr =
       \<lparr>trace = tr @ [Called_areSecretsAvailable,
                        Console_log ''ERROR: You must configure the secrets file to generate license tokens.'',
                        Response_status 500,
                        Response_send ''You must configure the secrets file to generate license tokens.''],
        thrown = None\<rparr>"
  by (simp add: generate_token_def NEED_TO_KNOW_SECRETS_STATUS_CODE_def)

lemma processGet_signed:
  assumes "signed_payloads (trace (processGet pf e req)) = [envelope]"
  obtains v ws where
    "getVideoByName e (videoName req) = Some v"
    "truthy_licenseToken v = None"
    "areSecretsAvailable e"
    "map Inr ws = map (wrap_key pf (communicationKeyAsBuffer pf e)) (keys v)"
    "envelope = JObj (built_envelope pf e ws)"
    "processGet pf e req =
       \<lparr>trace = [Called_getVideoByName (videoName req), Called_areSecretsAvailable, Called_getSecrets, Called_moment]
                  @ cipher_calls (communicationKeyAsBuffer pf e) (keys v)
                  @ [Console_log (''Creating license token with payload: '' @ stringify envelope),
                     Called_jwt_sign envelope,
                     Response_json (JStr (jwt_token pf (built_envelope pf e ws) (communicationKeyAsBuffer pf e) (date_now e)))],
        thrown = None\<rparr>"
proof (cases "getVideoByName e (videoName req)")
  case None
  with assms show ?thesis by (simp add: processGet_def)
next
  case (Some v)
  show ?thesis
  proof (cases "truthy_licenseToken v")
    case (Some token)
    with \<open>getVideoByName e (videoName req) = Some v\<close> assms show ?thesis
      by (simp add: processGet_def)
  next
    case None
    have run: "processGet pf e req = generate_token pf e v [Called_getVideoByName (videoName req)]"
      using None \<open>getVideoByName e (videoName req) = Some v\<close> by (simp add: processGet_def)
    show ?thesis
    proof (cases "areSecretsAvailable e")
      case False
      with assms run show ?thesis
        by (simp add: generate_token_unavailable)
    next
      case True
      show ?thesis
      proof (rule generate_token_cases [OF True, of pf v "[Called_getVideoByName (videoName req)]"], goal_cases)
        case (1 err n)
        with assms run show ?thesis
          by (simp add: reads_append reads_cipher_calls)
      next
        case (2 ws)
        with assms run have "envelope = JObj (built_envelope pf e ws)"
          by (simp add: reads_append reads_cipher_calls)
        with that [OF \<open>getVideoByName e (videoName req) = Some v\<close> None True 2(1)] run 2(2)
        show ?thesis by simp
      qed
    qed
  qed
qed

lemma wrap_key_bad_length:
  assumes "length (from_base64 pf (key k)) mod 16 \<noteq> 0"
  shows "wrap_key pf ck k = Inl (if length ck = 32 then DataNotMultipleOfBlockLength else InvalidKeyLength)"
proof (cases "length ck = 32")
  case True
  then show ?thesis using wrap_key_malformed [OF True assms] by simp
next
  case False
  then show ?thesis by (simp add: wrap_key_def createCipheriv_def)
qed

lemma wrap_key_id:
  "wrap_key pf ck k = Inr w \<Longrightarrow>
     property_names w = [''id'', ''encrypted_key''] \<and> property ''id'' w = Some (JStr (keyId k))"
  by (auto simp: wrap_key_def Let_def split: sum.splits prod.splits)

lemma lookup_built_envelope:
  "lookup_path [''begin_date''] (JObj (built_envelope pf e ws)) = Some (JStr (begin_date pf e))"
  "lookup_path [''expiration_date''] (JObj (built_envelope pf e ws)) = Some (JStr (expiration_date pf e))"
  "lookup_path [''message'', ''begin_date''] (JObj (built_envelope pf e ws)) = Some (JStr (begin_date pf e))"
  "lookup_path [''message'', ''expiration_date''] (JObj (built_envelope pf e ws)) = Some (JStr (expiration_date pf e))"
  "lookup_path [''message'', ''type''] (JObj (built_envelope pf e ws)) = Some (JStr ''entitlement_message'')"
  "lookup_path [''version''] (JObj (built_envelope pf e ws)) = Some (JNum 1)"
  "lookup_path [''com_key_id''] (JObj (built_envelope pf e ws)) = Some (JStr (communicationKeyId (getSecrets e)))"
  "envelope_keys (JObj (built_envelope pf e ws)) = ws"
  by (simp_all add: built_envelope_def envelope_fields_def entitlement_message_def envelope_keys_def)

lemma wrap_keys_fst_trace:
  "fst (wrap_keys pf ck ks acc tr) = fst (wrap_keys pf ck ks acc tr')"
proof (induction ks arbitrary: acc tr tr')
  case Nil
  show ?case by simp
next
  case (Cons k ks)
  show ?case
  proof (cases "wrap_key pf ck k")
    case (Inl err)
    then show ?thesis by simp
  next
    case (Inr w)
    with Cons.IH [of "acc @ [w]" "tr @ [Called_createCipheriv ck (uuid_parse (keyId k))]"
                     "tr' @ [Called_createCipheriv ck (uuid_parse (keyId k))]"]
    show ?thesis by simp
  qed
qed

lemma generate_token_payloads:
  assumes "areSecretsAvailable e"
  shows "signed_payloads (trace (generate_token pf e v tr)) =
           signed_payloads tr @
           (case fst (wrap_keys pf (communicationKeyAsBuffer pf e) (keys v) [] []) of
              Inl err \<Rightarrow> []
            | Inr ws \<Rightarrow> [JObj (built_envelope pf e ws)])"
    and "thrown (generate_token pf e v tr) =
           (case fst (wrap_keys pf (communicationKeyAsBuffer pf e) (keys v) [] []) of
              Inl err \<Rightarrow> Some err
            | Inr ws \<Rightarrow> None)"
proof -
  let ?tr = "tr @ [Called_areSecretsAvailable, Called_getSecrets, Called_moment]"
  let ?ck = "communicationKeyAsBuffer pf e"
  have same: "fst (wrap_keys pf ?ck (keys v) [] ?tr) = fst (wrap_keys pf ?ck (keys v) [] [])"
    by (rule wrap_keys_fst_trace)
  have "signed_payloads (trace (generate_token pf e v tr)) =
           signed_payloads tr @
           (case fst (wrap_keys pf ?ck (keys v) [] []) of
              Inl err \<Rightarrow> []
            | Inr ws \<Rightarrow> [JObj (built_envelope pf e ws)])
        \<and> thrown (generate_token pf e v tr) =
           (case fst (wrap_keys pf ?ck (keys v) [] []) of
              Inl err \<Rightarrow> Some err
            | Inr ws \<Rightarrow> None)"
  proof (cases "fst (wrap_keys pf ?ck (keys v) [] ?tr)")
    case (Inl err)
    from generate_token_failure [OF assms Inl] Inl same show ?thesis
      by (auto simp: reads_append reads_cipher_calls)
  next
    case (Inr ws)
    then have "wrap_keys pf ?ck (keys v) [] ?tr = (Inr ws, snd (wrap_keys pf ?ck (keys v) [] ?tr))"
      by (metis prod.collapse)
    from wrap_keys_Inr [OF this] have "map Inr ws = map (wrap_key pf ?ck) (keys v)"
      by simp
    from generate_token_success [OF assms this, of tr] Inr same show ?thesis
      by (simp add: reads_append reads_cipher_calls)
  qed
  then show "signed_payloads (trace (generate_token pf e v tr)) =
           signed_payloads tr @
           (case fst (wrap_keys pf ?ck (keys v) [] []) of
              Inl err \<Rightarrow> []
            | Inr ws \<Rightarrow> [JObj (built_envelope pf e ws)])"
    and "thrown (generate_token pf e v tr) =
           (case fst (wrap_keys pf ?ck (keys v) [] []) of
              Inl err \<Rightarrow> Some err
            | Inr ws \<Rightarrow> None)"
    by simp_all
qed

lemma built_envelope_cong:
  assumes "getSecrets e1 = getSecrets e2" and "moment_now e1 = moment_now e2"
  shows "built_envelope pf e1 ws = built_envelope pf e2 ws"
  using assms by (simp add: built_envelope_def begin_date_def expiration_date_def)

lemma demo_communicationKey:
  "length (communicationKeyAsBuffer demo_platform demo_env) = 32"
  "block_of_bytes (take 16 (communicationKeyAsBuffer demo_platform demo_env)) =
     0x603deb1015ca71be2b73aef0857d7781"
  by (simp_all add: communicationKeyAsBuffer_def demo_platform_def demo_env_def demo_secrets_def
      hex_digit_def block_of_bytes_def)

lemma demo_key_bytes:
  "length (from_base64 demo_platform (key demo_key)) = 16"
  "blocks_of (from_base64 demo_platform (key demo_key)) = [0x000102030405060708090a0b0c0d0e0f]"
  by (simp_all add: demo_platform_def demo_key_def demo_from_base64_def base64url_decode_def
      url_char_def b64url_chars_def blocks_of_def block_of_bytes_def)

lemma short_key_bytes: "length (from_base64 demo_platform (key short_key)) = 15"
  by (simp add: demo_platform_def short_key_def demo_from_base64_def base64url_decode_def
      url_char_def b64url_chars_def)

lemma demo_uuid: "uuid_parse (keyId demo_key) =
    [0x00, 0x11, 0x22, 0x33, 0x44, 0x55, 0x66, 0x77, 0x88, 0x99, 0xAA, 0xBB, 0xCC, 0xDD, 0xEE, 0xFF]"
  by (simp add: uuid_parse_def demo_key_def hex_digit_def)

lemma demo_chain:
  "cbc_chain (aes256_encrypt demo_platform (communicationKeyAsBuffer demo_platform demo_env))
     (block_of_bytes (uuid_parse (keyId demo_key)))
     (blocks_of (from_base64 demo_platform (key demo_key))) =
   [0x602dcb20559a11ceabe30e4045ad9772]"
proof -
  have iv: "block_of_bytes (uuid_parse (keyId demo_key)) = 0x00112233445566778899AABBCCDDEEFF"
    by (simp add: demo_uuid block_of_bytes_def)
  have aes: "aes256_encrypt demo_platform ck b = (b XOR block_of_bytes (take 16 ck)) + 1" for ck b
    by (simp add: demo_platform_def)
  show ?thesis
    unfolding demo_key_bytes iv by (simp add: aes demo_communicationKey)
qed

lemma demo_wrap:
  "wrap_key demo_platform (communicationKeyAsBuffer demo_platform demo_env) demo_key = Inr demo_wrapped_key"
proof -
  have whole: "length (from_base64 demo_platform (key demo_key)) mod 16 = 0"
    by (simp add: demo_key_bytes)
  have b64: "base64_encode (concat (map bytes_of_block [0x602dcb20559a11ceabe30e4045ad9772])) =
      ''YC3LIFWaEc6r4w5ARa2Xcg==''"
    by (simp add: bytes_of_block_def upt_rec b64char_def b64chars_def)
  show ?thesis
    using wrap_key_ok [OF demo_communicationKey(1) whole]
    unfolding cbc_encrypt_nopad_def demo_chain b64
    by (simp add: demo_key_def demo_wrapped_key_def)
qed

lemma show_nat_digit: "n < 10 \<Longrightarrow> show_nat n = [digit_char n]"
  by (subst show_nat.simps) simp

lemma show_nat_more: "\<not> n < 10 \<Longrightarrow> show_nat n = show_nat (n div 10) @ [digit_char n]"
  by (subst show_nat.simps) simp

lemma replicate_numeral: "replicate (numeral k) x = x # replicate (pred_numeral k) x"
  by (simp add: numeral_eq_Suc)

lemmas show_nat_eval = show_nat_digit show_nat_more digit_char_def pad_nat_def replicate_numeral

lemmas demo_iso_eval = demo_iso_def demo_date_def demo_time_def date_of_doe_def date_of_doy_def
  date_string_def year_of_def day_of_month_def month_of_def month_index_def day_of_year_def
  year_of_era_def

lemma demo_iso_begin: "demo_iso 1499913600000 = ''2017-07-13T02:40:00.000Z''"
  by (simp add: demo_iso_eval show_nat_eval)

lemma demo_iso_end: "demo_iso 1500086400000 = ''2017-07-15T02:40:00.000Z''"
  by (simp add: demo_iso_eval show_nat_eval)

lemma demo_dates:
  "begin_date demo_platform demo_env = ''2017-07-13T02:40:00.000Z''"
  "expiration_date demo_platform demo_env = ''2017-07-15T02:40:00.000Z''"
  by (simp_all add: begin_date_def expiration_date_def demo_platform_def demo_env_def
      demo_iso_begin demo_iso_end)

lemma demo_built_envelope: "built_envelope demo_platform demo_env [demo_wrapped_key] = demo_envelope"
  unfolding built_envelope_def demo_dates
  by (simp add: demo_envelope_def envelope_fields_def entitlement_message_def demo_env_def demo_secrets_def)

lemma demo1_video:
  "getVideoByName demo_env (videoName \<lparr>videoName = ''demo1''\<rparr>) = Some \<lparr>licenseToken = None, keys = [demo_key]\<rparr>"
  by (simp add: demo_env_def demo_catalog_def)

lemma demo1_payloads:
  "signed_payloads (trace (processGet demo_platform demo_env \<lparr>videoName = ''demo1''\<rparr>)) = [JObj demo_envelope]"
proof -
  have run: "processGet demo_platform demo_env \<lparr>videoName = ''demo1''\<rparr> =
      generate_token demo_platform demo_env \<lparr>licenseToken = None, keys = [demo_key]\<rparr> [Called_getVideoByName ''demo1'']"
    using demo1_video by (simp add: processGet_def truthy_licenseToken_def)
  have av: "areSecretsAvailable demo_env" by (simp add: demo_env_def)
  have ws: "map Inr [demo_wrapped_key] =
      map (wrap_key demo_platform (communicationKeyAsBuffer demo_platform demo_env))
        (keys \<lparr>licenseToken = None, keys = [demo_key]\<rparr>)"
    by (simp add: demo_wrap)
  show ?thesis
    unfolding run generate_token_success [OF av ws] demo_built_envelope
    by (simp add: reads_append reads_cipher_calls)
qed

lemma demo1_tokens:
  "tokens (trace (processGet demo_platform demo_env \<lparr>videoName = ''demo1''\<rparr>)) =
     [jwt_token demo_platform demo_envelope (communicationKeyAsBuffer demo_platform demo_env) 1500000000123]"
proof -
  have run: "processGet demo_platform demo_env \<lparr>videoName = ''demo1''\<rparr> =
      generate_token demo_platform demo_env \<lparr>licenseToken = None, keys = [demo_key]\<rparr> [Called_getVideoByName ''demo1'']"
    using demo1_video by (simp add: processGet_def truthy_licenseToken_def)
  have av: "areSecretsAvailable demo_env" by (simp add: demo_env_def)
  have ws: "map Inr [demo_wrapped_key] =
      map (wrap_key demo_platform (communicationKeyAsBuffer demo_platform demo_env))
        (keys \<lparr>licenseToken = None, keys = [demo_key]\<rparr>)"
    by (simp add: demo_wrap)
  have d: "date_now demo_env = 1500000000123" by (simp add: demo_env_def)
  show ?thesis
    unfolding run generate_token_success [OF av ws] demo_built_envelope d
    by (simp add: reads_append reads_cipher_calls)
qed

lemma demo1_truthy: "truthy_licenseToken \<lparr>licenseToken = None, keys = [demo_key]\<rparr> = None"
  by (simp add: truthy_licenseToken_def)

lemma demo_available: "areSecretsAvailable demo_env"
  by (simp add: demo_env_def)

lemma index_of_nth: "distinct xs \<Longrightarrow> k < length xs \<Longrightarrow> index_of (xs ! k) xs = Some k"
proof (induction xs arbitrary: k)
  case Nil
  then show ?case by simp
next
  case (Cons x xs)
  show ?case
  proof (cases k)
    case 0
    then show ?thesis by simp
  next
    case (Suc j)
    with Cons.prems have "xs ! j \<noteq> x" "index_of (xs ! j) xs = Some j"
      using Cons.IH [of j] by auto
    with Suc show ?thesis by simp
  qed
qed

lemma index_of_Some: "index_of x xs = Some k \<Longrightarrow> k < length xs \<and> xs ! k = x"
  by (induction xs arbitrary: k) (auto split: if_splits)

lemma b64url_chars_map: "b64url_chars = map url_char b64chars"
  by (simp add: b64url_chars_def b64chars_def url_char_def)

lemma distinct_b64url_chars: "distinct b64url_chars"
  by (simp add: b64url_chars_def)

lemma length_b64chars: "length b64chars = 64" "length b64url_chars = 64"
  by (simp_all add: b64chars_def b64url_chars_def)

lemma pad_not_b64: "CHR ''='' \<notin> set b64chars" "CHR ''.'' \<notin> set b64url_chars"
  "CHR ''='' \<notin> set b64url_chars"
  by (simp_all add: b64chars_def b64url_chars_def)

lemma b64char_not_pad: "b64char n \<noteq> CHR ''=''"
proof -
  have "b64char n \<in> set b64chars"
    unfolding b64char_def by (rule nth_mem) (simp add: length_b64chars)
  with pad_not_b64(1) show ?thesis by metis
qed

lemma index_of_b64char: "index_of (url_char (b64char n)) b64url_chars = Some (n mod 64)"
proof -
  have "url_char (b64char n) = b64url_chars ! (n mod 64)"
    by (simp add: b64char_def b64url_chars_map length_b64chars)
  then show ?thesis
    by (simp add: index_of_nth distinct_b64url_chars length_b64chars)
qed

lemma url_b64char_in_alphabet: "url_char (b64char n) \<in> set b64url_chars"
  using index_of_Some [OF index_of_b64char] by (metis nth_mem)

lemma sextets_of_24:
  fixes n :: nat
  assumes "n < 16777216"
  shows "(n div 262144 mod 64) * 262144 + (n div 4096 mod 64) * 4096 + (n div 64 mod 64) * 64 + n mod 64 = n"
proof -
  define q1 where "q1 = n div 64"
  define q2 where "q2 = q1 div 64"
  define q3 where "q3 = q2 div 64"
  have d2: "n div 4096 = q2"
    unfolding q2_def q1_def by (simp add: div_mult2_eq)
  have d3: "n div 262144 = q3"
    unfolding q3_def q2_def q1_def by (simp add: div_mult2_eq)
  have "q3 < 64"
    unfolding d3 [symmetric] using assms by (simp add: less_mult_imp_div_less)
  then have m3: "q3 mod 64 = q3" by simp
  have e1: "n = q1 * 64 + n mod 64"
    unfolding q1_def by simp
  have e2: "q1 = q2 * 64 + q1 mod 64"
    unfolding q2_def by simp
  have e3: "q2 = q3 * 64 + q2 mod 64"
    unfolding q3_def by simp
  have "q3 * 262144 + (q2 mod 64) * 4096 + (q1 mod 64) * 64 + n mod 64 = n"
    using e1 e2 e3 by linarith
  then show ?thesis
    unfolding d2 d3 m3 q1_def [symmetric] .
qed

lemma unat_byte_less: "unat (a :: byte) < 256"
  using unsigned_less [of a, where ?'a = nat] by simp

lemma of_nat_256: "(of_nat (x * 256 + y) :: byte) = of_nat y"
  by (subst word_of_nat_eq_iff) (simp add: take_bit_eq_mod)

lemma triple_less:
  fixes a b c :: byte
  shows "unat a * 65536 + unat b * 256 + unat c < 16777216"
  using unat_byte_less [of a] unat_byte_less [of b] unat_byte_less [of c] by linarith

lemma bytes_of_triple:
  fixes a b c :: byte
  shows "of_nat ((unat a * 65536 + unat b * 256 + unat c) div 65536) = a"
    and "of_nat ((unat a * 65536 + unat b * 256 + unat c) div 256) = b"
    and "of_nat (unat a * 65536 + unat b * 256 + unat c) = c"
proof -
  have lt: "unat b * 256 + unat c < 65536" "unat c < 256"
    using unat_byte_less [of b] unat_byte_less [of c] by linarith+
  have "(unat a * 65536 + unat b * 256 + unat c) div 65536 = unat a"
    using lt(1) by simp
  then show "of_nat ((unat a * 65536 + unat b * 256 + unat c) div 65536) = a"
    by simp
  have "(unat a * 65536 + unat b * 256 + unat c) div 256 = unat a * 256 + unat b"
    using lt(2) by simp
  then show "of_nat ((unat a * 65536 + unat b * 256 + unat c) div 256) = b"
    by (simp only: of_nat_256) simp
  have "unat a * 65536 + unat b * 256 + unat c = (unat a * 256 + unat b) * 256 + unat c"
    by simp
  then show "of_nat (unat a * 65536 + unat b * 256 + unat c) = c"
    by (simp only: of_nat_256) simp
qed

lemma sextets_prefix:
  fixes n :: nat
  assumes "n < 16777216"
  shows "(n div 262144 mod 64) * 262144 + (n div 4096 mod 64) * 4096 = (n div 4096) * 4096"
    and "(n div 262144 mod 64) * 262144 + (n div 4096 mod 64) * 4096 + (n div 64 mod 64) * 64 = (n div 64) * 64"
proof -
  define q1 where "q1 = n div 64"
  define q2 where "q2 = q1 div 64"
  define q3 where "q3 = q2 div 64"
  have d2: "n div 4096 = q2"
    unfolding q2_def q1_def by (simp add: div_mult2_eq)
  have d3: "n div 262144 = q3"
    unfolding q3_def q2_def q1_def by (simp add: div_mult2_eq)
  have "q3 < 64"
    unfolding d3 [symmetric] using assms by (simp add: less_mult_imp_div_less)
  then have m3: "q3 mod 64 = q3" by simp
  have e2: "q1 = q2 * 64 + q1 mod 64"
    unfolding q2_def by simp
  have e3: "q2 = q3 * 64 + q2 mod 64"
    unfolding q3_def by simp
  have "q3 * 262144 + (q2 mod 64) * 4096 = q2 * 4096"
    using e3 by linarith
  then show "(n div 262144 mod 64) * 262144 + (n div 4096 mod 64) * 4096 = (n div 4096) * 4096"
    unfolding d2 d3 m3 .
  have "q3 * 262144 + (q2 mod 64) * 4096 + (q1 mod 64) * 64 = q1 * 64"
    using e2 e3 by linarith
  then show "(n div 262144 mod 64) * 262144 + (n div 4096 mod 64) * 4096 + (n div 64 mod 64) * 64 = (n div 64) * 64"
    unfolding d2 d3 m3 q1_def [symmetric] .
qed

lemma div_of_multiple:
  fixes q :: nat
  shows "(q * 4096) div 65536 = q div 16" "(q * 64) div 65536 = q div 1024" "(q * 64) div 256 = q div 4"
proof -
  have "(q * 4096) div (4096 * 16) = q div 16"
    by (subst div_mult2_eq) simp
  then show "(q * 4096) div 65536 = q div 16" by simp
  have "(q * 64) div (64 * 1024) = q div 1024"
    by (subst div_mult2_eq) simp
  then show "(q * 64) div 65536 = q div 1024" by simp
  have "(q * 64) div (64 * 4) = q div 4"
    by (subst div_mult2_eq) simp
  then show "(q * 64) div 256 = q div 4" by simp
qed

lemma sextets_bytes:
  fixes n :: nat
  assumes "n < 16777216"
  shows "((n div 262144 mod 64) * 262144 + (n div 4096 mod 64) * 4096) div 65536 = n div 65536"
    and "((n div 262144 mod 64) * 262144 + (n div 4096 mod 64) * 4096 + (n div 64 mod 64) * 64) div 65536 = n div 65536"
    and "((n div 262144 mod 64) * 262144 + (n div 4096 mod 64) * 4096 + (n div 64 mod 64) * 64) div 256 = n div 256"
proof -
  have a: "n div 4096 div 16 = n div 65536" "n div 64 div 1024 = n div 65536" "n div 64 div 4 = n div 256"
    by (simp_all add: div_mult2_eq [symmetric])
  show "((n div 262144 mod 64) * 262144 + (n div 4096 mod 64) * 4096) div 65536 = n div 65536"
    unfolding sextets_prefix(1) [OF assms] div_of_multiple a ..
  show "((n div 262144 mod 64) * 262144 + (n div 4096 mod 64) * 4096 + (n div 64 mod 64) * 64) div 65536 = n div 65536"
    unfolding sextets_prefix(2) [OF assms] div_of_multiple a ..
  show "((n div 262144 mod 64) * 262144 + (n div 4096 mod 64) * 4096 + (n div 64 mod 64) * 64) div 256 = n div 256"
    unfolding sextets_prefix(2) [OF assms] div_of_multiple a ..
qed

lemma sextets_b64char:
  "sextets (url_char (b64char n) # cs) = map_option (\<lambda>ns. n mod 64 # ns) (sextets cs)"
  by (simp add: index_of_b64char split: option.splits)

lemma decode_one:
  fixes a :: byte
  defines "n \<equiv> unat a * 65536"
  shows "bytes_of_sextets [n div 262144 mod 64, n div 4096 mod 64] = Some [a]"
proof -
  have lt: "n < 16777216"
    unfolding n_def using triple_less [of a 0 0] by simp
  have "of_nat (n div 65536) = a"
    unfolding n_def using bytes_of_triple(1) [of a 0 0] by simp
  then show ?thesis
    by (simp add: sextets_bytes(1) [OF lt])
qed

lemma decode_two:
  fixes a b :: byte
  defines "n \<equiv> unat a * 65536 + unat b * 256"
  shows "bytes_of_sextets [n div 262144 mod 64, n div 4096 mod 64, n div 64 mod 64] = Some [a, b]"
proof -
  have lt: "n < 16777216"
    unfolding n_def using triple_less [of a b 0] by simp
  have "of_nat (n div 65536) = a" "of_nat (n div 256) = b"
    unfolding n_def using bytes_of_triple(1,2) [of a b 0] by simp_all
  then show ?thesis
    by (simp add: sextets_bytes(2,3) [OF lt])
qed

lemma decode_three:
  fixes a b c :: byte
  defines "n \<equiv> unat a * 65536 + unat b * 256 + unat c"
  assumes "bytes_of_sextets ns = Some bs"
  shows "bytes_of_sextets (n div 262144 mod 64 # n div 4096 mod 64 # n div 64 mod 64 # n mod 64 # ns) =
           Some (a # b # c # bs)"
proof -
  have lt: "n < 16777216"
    unfolding n_def by (rule triple_less)
  have "of_nat (n div 65536) = a" "of_nat (n div 256) = b" "of_nat n = c"
    unfolding n_def by (rule bytes_of_triple)+
  then show ?thesis
    using assms(2) by (simp add: sextets_of_24 [OF lt])
qed

lemma base64url_sextets:
  "\<exists>ns. sextets (base64url_encode bs) = Some ns \<and> bytes_of_sextets ns = Some bs"
proof (induction bs rule: base64_encode.induct)
  case 1
  show ?case by (simp add: base64url_encode_def)
next
  case (2 a)
  define n where "n = unat a * 65536"
  have enc: "base64url_encode [a] = [url_char (b64char (n div 262144)), url_char (b64char (n div 4096))]"
    unfolding n_def by (simp add: base64url_encode_def b64char_not_pad Let_def)
  have "sextets (base64url_encode [a]) = Some [n div 262144 mod 64, n div 4096 mod 64]"
    unfolding enc by (simp add: index_of_b64char)
  with decode_one [of a, folded n_def] show ?case by blast
next
  case (3 a b)
  define n where "n = unat a * 65536 + unat b * 256"
  have enc: "base64url_encode [a, b] =
      [url_char (b64char (n div 262144)), url_char (b64char (n div 4096)), url_char (b64char (n div 64))]"
    unfolding n_def by (simp add: base64url_encode_def b64char_not_pad Let_def)
  have "sextets (base64url_encode [a, b]) = Some [n div 262144 mod 64, n div 4096 mod 64, n div 64 mod 64]"
    unfolding enc by (simp add: index_of_b64char)
  with decode_two [of a b, folded n_def] show ?case by blast
next
  case (4 a b c rest)
  then obtain ns where ns: "sextets (base64url_encode rest) = Some ns" "bytes_of_sextets ns = Some rest"
    by blast
  define n where "n = unat a * 65536 + unat b * 256 + unat c"
  have enc: "base64url_encode (a # b # c # rest) =
      url_char (b64char (n div 262144)) # url_char (b64char (n div 4096)) #
      url_char (b64char (n div 64)) # url_char (b64char n) # base64url_encode rest"
    unfolding n_def by (simp add: base64url_encode_def b64char_not_pad Let_def)
  have "sextets (base64url_encode (a # b # c # rest)) =
      Some (n div 262144 mod 64 # n div 4096 mod 64 # n div 64 mod 64 # n mod 64 # ns)"
    unfolding enc by (simp add: index_of_b64char ns(1))
  with decode_three [OF ns(2), of a b c, folded n_def] show ?case by blast
qed

lemma base64url_roundtrip: "base64url_decode (base64url_encode bs) = Some bs"
  using base64url_sextets [of bs] by (auto simp: base64url_decode_def)

lemma base64url_alphabet: "set (base64url_encode bs) \<subseteq> set b64url_chars"
proof (induction bs rule: base64_encode.induct)
  case 1
  show ?case by (simp add: base64url_encode_def)
next
  case (2 a)
  show ?case
    by (simp add: base64url_encode_def b64char_not_pad url_b64char_in_alphabet Let_def)
next
  case (3 a b)
  show ?case
    by (simp add: base64url_encode_def b64char_not_pad url_b64char_in_alphabet Let_def)
next
  case (4 a b c rest)
  then show ?case
    by (simp add: base64url_encode_def b64char_not_pad url_b64char_in_alphabet Let_def)
qed

lemma base64url_no_dot: "CHR ''.'' \<notin> set (base64url_encode bs)"
  using base64url_alphabet [of bs] pad_not_b64(2) by blast

lemma split_on_none: "sep \<notin> set s \<Longrightarrow> split_on sep s = [s]"
  by (induction s) auto

lemma split_on_append:
  "sep \<notin> set a \<Longrightarrow> split_on sep (a @ sep # s) = a # split_on sep s"
  by (induction a) auto

lemma split_on_three:
  assumes "sep \<notin> set a" "sep \<notin> set b" "sep \<notin> set c"
  shows "split_on sep (a @ [sep] @ b @ [sep] @ c) = [a, b, c]"
  using assms by (simp add: split_on_append split_on_none)

lemma string_of_bytes_of_string: "string_of_bytes (bytes_of_string s) = s"
proof -
  have "char_of (unat (of_nat (of_char c :: nat) :: byte)) = c" for c :: char
  proof -
    have "of_char c < (256 :: nat)" by simp
    then have "unat (of_nat (of_char c :: nat) :: byte) = of_char c"
      by (simp add: unat_of_nat)
    then show ?thesis by simp
  qed
  then show ?thesis
    by (simp add: string_of_bytes_def bytes_of_string_def map_idI)
qed

lemma hex_digit_hex_char: "k < 16 \<Longrightarrow> hex_digit (hex_char k) = Some k"
proof -
  have "\<forall>k \<in> set [0..<16]. hex_digit (hex_char k) = Some k"
    by (simp add: upt_rec hex_char_def hex_digit_def)
  then show "k < 16 \<Longrightarrow> hex_digit (hex_char k) = Some k"
    by simp
qed

lemma hex_digit_zero: "hex_digit CHR ''0'' = Some 0"
  by (simp add: hex_digit_def)

lemma prepend_Some: "prepend x (Some (xs, rest)) = Some (x # xs, rest)"
  by (simp add: prepend_def)

lemma char_eqI: "(of_char c :: nat) = of_char d \<Longrightarrow> c = d"
  by simp

lemma parse_chars_escape:
  assumes "parse_chars s = Some (str, rest)"
  shows "parse_chars (escape_char c @ s) = Some (c # str, rest)"
proof -
  define n where "n = (of_char c :: nat)"
  have c: "c = char_of n" unfolding n_def by simp
  have n: "n < 256" unfolding n_def by simp
  consider (quote) "c = CHR ''\"''" | (backslash) "n = 0x5C"
    | (b) "n = 8" | (f) "n = 12" | (n) "n = 10" | (r) "n = 13" | (t) "n = 9"
    | (control) "n < 32" "n \<noteq> 8" "n \<noteq> 12" "n \<noteq> 10" "n \<noteq> 13" "n \<noteq> 9"
    | (plain) "c \<noteq> CHR ''\"''" "n \<noteq> 0x5C" "\<not> n < 32"
    by linarith
  then show ?thesis
  proof cases
    case quote
    then show ?thesis using assms
      by (simp add: escape_char_def unescape_def prepend_Some)
  next
    case backslash
    then have "c = CHR 0x5C" by (intro char_eqI) (simp add: n_def [symmetric])
    then show ?thesis using assms
      by (simp add: escape_char_def unescape_def prepend_Some)
  next
    case b
    then have "c = CHR 0x08" by (intro char_eqI) (simp add: n_def [symmetric])
    then show ?thesis using assms
      by (simp add: escape_char_def unescape_def prepend_Some)
  next
    case f
    then have "c = CHR 0x0C" by (intro char_eqI) (simp add: n_def [symmetric])
    then show ?thesis using assms
      by (simp add: escape_char_def unescape_def prepend_Some)
  next
    case n
    then have "c = CHR 0x0A" by (intro char_eqI) (simp add: n_def [symmetric])
    then show ?thesis using assms
      by (simp add: escape_char_def unescape_def prepend_Some)
  next
    case r
    then have "c = CHR 0x0D" by (intro char_eqI) (simp add: n_def [symmetric])
    then show ?thesis using assms
      by (simp add: escape_char_def unescape_def prepend_Some)
  next
    case t
    then have "c = CHR 0x09" by (intro char_eqI) (simp add: n_def [symmetric])
    then show ?thesis using assms
      by (simp add: escape_char_def unescape_def prepend_Some)
  next
    case control
    have nq: "c \<noteq> CHR ''\"''"
    proof
      assume "c = CHR ''\"''"
      then have "n = 34" unfolding n_def by simp
      with control(1) show False by simp
    qed
    have esc: "escape_char c = [CHR 0x5C, CHR ''u'', CHR ''0'', CHR ''0'', hex_char (n div 16), hex_char n]"
      using control nq by (simp add: escape_char_def n_def [symmetric])
    have h1: "hex_digit (hex_char (n div 16)) = Some (n div 16)"
      using control(1) by (intro hex_digit_hex_char) simp
    have h2: "hex_digit (hex_char n) = Some (n mod 16)"
      using hex_digit_hex_char [of "n mod 16"] by (simp add: hex_char_def)
    have "n div 16 < 8" using control(1) by simp
    moreover have "char_of (16 * (n div 16) + n mod 16) = c"
      unfolding c by simp
    ultimately show ?thesis
      unfolding esc using assms
      by (simp add: hex_digit_zero h1 h2 prepend_Some)
  next
    case plain
    have "(of_char c :: nat) \<noteq> 0x5C" using plain(2) unfolding n_def .
    then have nb: "c \<noteq> CHR 0x5C" by auto
    have esc: "escape_char c = [c]"
      using plain by (auto simp: escape_char_def n_def [symmetric])
    show ?thesis
      unfolding esc using assms plain nb
      by (simp add: prepend_Some n_def [symmetric])
  qed
qed

lemma parse_chars_quote:
  "parse_chars (concat (map escape_char s) @ CHR ''\"'' # rest) = Some (s, rest)"
  by (induction s) (simp_all add: parse_chars_escape)

lemma digit_char_digit: "is_digit (digit_char n)" "(of_char (digit_char n) :: nat) - 48 = n mod 10"
proof -
  have "\<forall>k \<in> set [0..<10]. is_digit (''0123456789'' ! k) \<and> (of_char (''0123456789'' ! k) :: nat) - 48 = k"
    by (simp add: upt_rec is_digit_def)
  moreover have "n mod 10 \<in> set [0..<10]" by simp
  ultimately show "is_digit (digit_char n)" "(of_char (digit_char n) :: nat) - 48 = n mod 10"
    unfolding digit_char_def by blast+
qed

lemma nat_of_digits_snoc: "nat_of_digits (ds @ [c]) = 10 * nat_of_digits ds + (of_char c - 48)"
  by (simp add: nat_of_digits_def)

lemma show_nat_digits:
  "(\<forall>c \<in> set (show_nat n). is_digit c) \<and> show_nat n \<noteq> [] \<and> nat_of_digits (show_nat n) = n"
proof (induction n rule: show_nat.induct)
  case (1 n)
  show ?case
  proof (cases "n < 10")
    case True
    then show ?thesis
      by (simp add: show_nat_digit digit_char_digit nat_of_digits_def)
  next
    case False
    with 1 show ?thesis
      by (simp add: show_nat_more digit_char_digit nat_of_digits_snoc)
  qed
qed

lemma parse_nat_show_nat:
  assumes "takeWhile is_digit rest = []"
  shows "parse_nat (show_nat n @ rest) = Some (n, rest)"
proof -
  have all: "\<forall>c \<in> set (show_nat n). is_digit c" and ne: "show_nat n \<noteq> []"
    and val: "nat_of_digits (show_nat n) = n"
    using show_nat_digits [of n] by blast+
  have t: "takeWhile is_digit (show_nat n @ rest) = show_nat n"
    using all assms by (simp add: takeWhile_append2)
  have "dropWhile is_digit rest = rest"
    using assms by (cases rest) (auto split: if_splits)
  then have d: "dropWhile is_digit (show_nat n @ rest) = rest"
    using all by (simp add: dropWhile_append2)
  show ?thesis
    unfolding parse_nat_def t d using ne val by simp
qed

lemma show_nat_head: "\<exists>d ds. show_nat n = d # ds \<and> is_digit d"
  using show_nat_digits [of n] by (cases "show_nat n") auto

lemma parse_number_show_int:
  assumes "takeWhile is_digit rest = []"
  shows "parse_number (show_int i @ rest) = Some (JNum i, rest)"
proof (cases "i < 0")
  case True
  then show ?thesis
    by (simp add: parse_number_def show_int_def parse_nat_show_nat [OF assms])
next
  case False
  obtain d ds where d: "show_nat (nat i) = d # ds" "is_digit d"
    using show_nat_head by blast
  then have "d \<noteq> CHR ''-''" by (auto simp: is_digit_def)
  with False d(1) parse_nat_show_nat [OF assms, of "nat i"] show ?thesis
    by (simp add: parse_number_def show_int_def)
qed

lemma show_int_head: "\<exists>d ds. show_int i = d # ds \<and> (d = CHR ''-'' \<or> is_digit d)"
  using show_nat_head [of "nat i"] by (auto simp: show_int_def)

lemma not_digit_punctuation:
  "\<not> is_digit CHR '',''" "\<not> is_digit CHR '']''" "\<not> is_digit CHR ''}''"
  by (simp_all add: is_digit_def)

lemma parse_elements_join:
  assumes "\<And>x n rest. x \<in> set xs \<Longrightarrow> weight x \<le> n \<Longrightarrow> takeWhile is_digit rest = [] \<Longrightarrow>
             parse_value n (stringify x @ rest) = Some (x, rest)"
    and "xs \<noteq> []"
    and "sum_list (map (\<lambda>x. Suc (weight x)) xs) \<le> m"
  shows "parse_elements m (join '','' (map stringify xs) @ CHR '']'' # rest) = Some (xs, rest)"
  using assms
proof (induction xs arbitrary: m)
  case Nil
  then show ?case by simp
next
  case (Cons x xs)
  from Cons.prems(3) obtain m' where m: "m = Suc m'" "weight x \<le> m'"
    "sum_list (map (\<lambda>x. Suc (weight x)) xs) \<le> m'"
    by (cases m) auto
  show ?case
  proof (cases xs)
    case Nil
    have "parse_value m' (stringify x @ CHR '']'' # rest) = Some (x, CHR '']'' # rest)"
      by (rule Cons.prems(1)) (simp_all add: m not_digit_punctuation)
    then show ?thesis
      by (simp add: Nil m)
  next
    case (Cons y ys)
    have v: "parse_value m' (stringify x @ CHR '','' # join '','' (map stringify xs) @ CHR '']'' # rest) =
        Some (x, CHR '','' # join '','' (map stringify xs) @ CHR '']'' # rest)"
      by (rule Cons.prems(1)) (simp_all add: m not_digit_punctuation)
    have "parse_elements m' (join '','' (map stringify xs) @ CHR '']'' # rest) = Some (xs, rest)"
      by (rule Cons.IH) (use Cons.prems(1) Cons m in auto)
    with v show ?thesis
      by (simp add: Cons m prepend_Some)
  qed
qed

lemma quote_cons:
  "\<exists>q. quote k = CHR ''\"'' # q \<and> (\<forall>rest. parse_chars (q @ rest) = Some (k, rest))"
  using parse_chars_quote [of k] by (simp add: quote_def)

lemma parse_members_join:
  assumes "\<And>k v n rest. (k, v) \<in> set kvs \<Longrightarrow> weight v \<le> n \<Longrightarrow> takeWhile is_digit rest = [] \<Longrightarrow>
             parse_value n (stringify v @ rest) = Some (v, rest)"
    and "kvs \<noteq> []"
    and "sum_list (map (\<lambda>kv. Suc (weight (snd kv))) kvs) \<le> m"
  shows "parse_members m (join '','' (map (\<lambda>kv. quote (fst kv) @ '':'' @ stringify (snd kv)) kvs) @ CHR ''}'' # rest) =
           Some (kvs, rest)"
  using assms
proof (induction kvs arbitrary: m)
  case Nil
  then show ?case by simp
next
  case (Cons kv kvs)
  obtain k v where kv: "kv = (k, v)" by (cases kv)
  obtain q where q: "quote k = CHR ''\"'' # q" "\<And>rest. parse_chars (q @ rest) = Some (k, rest)"
    using quote_cons [of k] by blast
  from Cons.prems(3) obtain m' where m: "m = Suc m'" "weight v \<le> m'"
    "sum_list (map (\<lambda>kv. Suc (weight (snd kv))) kvs) \<le> m'"
    by (cases m) (auto simp: kv)
  show ?case
  proof (cases kvs)
    case Nil
    have "parse_value m' (stringify v @ CHR ''}'' # rest) = Some (v, CHR ''}'' # rest)"
      by (rule Cons.prems(1) [of k]) (simp_all add: m kv not_digit_punctuation)
    then show ?thesis
      by (simp add: Nil m kv q)
  next
    case (Cons y ys)
    let ?more = "join '','' (map (\<lambda>kv. quote (fst kv) @ '':'' @ stringify (snd kv)) kvs) @ CHR ''}'' # rest"
    have v: "parse_value m' (stringify v @ CHR '','' # ?more) = Some (v, CHR '','' # ?more)"
      by (rule Cons.prems(1) [of k]) (simp_all add: m kv not_digit_punctuation)
    have "parse_members m' ?more = Some (kvs, rest)"
      by (rule Cons.IH) (use Cons.prems(1) Cons m in auto)
    with v show ?thesis
      by (simp add: Cons m kv q prepend_Some)
  qed
qed

lemma stringify_head:
  "\<exists>c cs. stringify j = c # cs \<and> c \<noteq> CHR '']'' \<and> c \<noteq> CHR ''}''"
proof (cases j)
  case (JNum i)
  obtain d ds where "show_int i = d # ds" "d = CHR ''-'' \<or> is_digit d"
    using show_int_head by blast
  then show ?thesis
    using JNum by (auto simp: is_digit_def)
next
  case (JStr s)
  then show ?thesis by (simp add: quote_def)
qed simp_all

lemma parse_value_stringify:
  "weight j \<le> n \<Longrightarrow> takeWhile is_digit rest = [] \<Longrightarrow>
     parse_value n (stringify j @ rest) = Some (j, rest)"
proof (induction j arbitrary: n rest)
  case JNull
  then obtain m where "n = Suc m" by (cases n) auto
  then show ?case by simp
next
  case (JBool b)
  then obtain m where "n = Suc m" by (cases n) auto
  then show ?case by simp
next
  case (JNum i)
  then obtain m where n: "n = Suc m" by (cases n) auto
  obtain d ds where d: "show_int i = d # ds" "d = CHR ''-'' \<or> is_digit d"
    using show_int_head by blast
  then have "d \<noteq> CHR ''n''" "d \<noteq> CHR ''t''" "d \<noteq> CHR ''f''" "d \<noteq> CHR ''\"''"
    "d \<noteq> CHR ''[''" "d \<noteq> CHR ''{''"
    by (auto simp: is_digit_def)
  then have "parse_value (Suc m) (show_int i @ rest) = parse_number (show_int i @ rest)"
    by (simp add: d(1))
  then show ?case
    by (simp add: n parse_number_show_int [OF JNum.prems(2)] del: parse_value.simps)
next
  case (JStr s)
  then obtain m where "n = Suc m" by (cases n) auto
  then show ?case
    using parse_chars_quote [of s rest] by (simp add: quote_def)
next
  case (JArr xs)
  then obtain m where n: "n = Suc m" "sum_list (map (\<lambda>x. Suc (weight x)) xs) \<le> m"
    by (cases n) auto
  show ?case
  proof (cases xs)
    case Nil
    then show ?thesis by (simp add: n)
  next
    case (Cons y ys)
    obtain c cs where c: "stringify y = c # cs" "c \<noteq> CHR '']''"
      using stringify_head by blast
    have first: "take 1 (join '','' (map stringify xs) @ CHR '']'' # rest) \<noteq> '']''"
      by (cases ys) (simp_all add: Cons c)
    have "parse_elements m (join '','' (map stringify xs) @ CHR '']'' # rest) = Some (xs, rest)"
      by (rule parse_elements_join) (use JArr.IH n Cons in auto)
    with first show ?thesis
      by (simp add: n)
  qed
next
  case (JObj kvs)
  then obtain m where n: "n = Suc m" "sum_list (map (\<lambda>kv. Suc (weight (snd kv))) kvs) \<le> m"
    by (cases n) auto
  show ?case
  proof (cases kvs)
    case Nil
    then show ?thesis by (simp add: n)
  next
    case (Cons kv kvs')
    have first: "take 1 (join '','' (map (\<lambda>kv. quote (fst kv) @ '':'' @ stringify (snd kv)) kvs) @ CHR ''}'' # rest)
        \<noteq> ''}''"
      by (cases kvs') (simp_all add: Cons quote_def)
    have ih: "parse_value n (stringify v @ rest) = Some (v, rest)"
      if "(k, v) \<in> set kvs" "weight v \<le> n" "takeWhile is_digit rest = []" for k v n rest
      using JObj.IH [of "(k, v)" v n rest] that by simp
    have "parse_members m (join '','' (map (\<lambda>kv. quote (fst kv) @ '':'' @ stringify (snd kv)) kvs) @ CHR ''}'' # rest) =
        Some (kvs, rest)"
      by (rule parse_members_join) (use ih n Cons in auto)
    with first show ?thesis
      by (simp add: n)
  qed
qed

lemma length_join_sep:
  "xs \<noteq> [] \<Longrightarrow> length (join sep xs) + length sep = sum_list (map (\<lambda>x. length x + length sep) xs)"
  by (induction sep xs rule: join.induct) simp_all

lemma length_join:
  "xs \<noteq> [] \<Longrightarrow> Suc (length (join '','' xs)) = sum_list (map (\<lambda>x. Suc (length x)) xs)"
  using length_join_sep [of xs "'',''"] by simp

lemma weight_le_length: "weight j \<le> length (stringify j)"
proof (induction j)
  case (JNum i)
  obtain d ds where "show_int i = d # ds" using show_int_head by blast
  then show ?case by simp
next
  case (JStr s)
  show ?case by (simp add: quote_def)
next
  case (JArr xs)
  show ?case
  proof (cases "xs = []")
    case True
    then show ?thesis by simp
  next
    case False
    have "sum_list (map (\<lambda>x. Suc (weight x)) xs) \<le> sum_list (map (\<lambda>x. Suc (length (stringify x))) xs)"
      using JArr.IH by (intro sum_list_mono) simp
    also have "\<dots> = Suc (length (join '','' (map stringify xs)))"
      using length_join [of "map stringify xs"] False by (simp add: comp_def)
    finally show ?thesis by simp
  qed
next
  case (JObj kvs)
  show ?case
  proof (cases "kvs = []")
    case True
    then show ?thesis by simp
  next
    case False
    let ?f = "\<lambda>kv. quote (fst kv) @ '':'' @ stringify (snd kv)"
    have "weight (snd kv) \<le> length (?f kv)" if "kv \<in> set kvs" for kv
      using JObj.IH [of kv "snd kv"] that by (cases kv) simp
    then have "sum_list (map (\<lambda>kv. Suc (weight (snd kv))) kvs) \<le> sum_list (map (\<lambda>kv. Suc (length (?f kv))) kvs)"
      by (intro sum_list_mono) simp
    also have "\<dots> = Suc (length (join '','' (map ?f kvs)))"
      using length_join [of "map ?f kvs"] False by (simp add: comp_def)
    finally show ?thesis by simp
  qed
qed simp_all

lemma parse_json_stringify: "parse_json (stringify j) = Some j"
proof -
  have "weight j \<le> Suc (length (stringify j))"
    using weight_le_length [of j] by simp
  from parse_value_stringify [OF this, of "[]"] show ?thesis
    by (simp add: parse_json_def del: parse_value.simps)
qed

lemma jwt_token_segments:
  "split_on CHR ''.'' (jwt_token pf claims secret t) =
     [base64url_encode (bytes_of_string (stringify jwt_header)),
      base64url_encode (bytes_of_string (stringify (jwt_payload claims t))),
      base64url_encode (hmac_sha256 pf secret (bytes_of_string
        (base64url_encode (bytes_of_string (stringify jwt_header)) @ ''.'' @
         base64url_encode (bytes_of_string (stringify (jwt_payload claims t))))))]"
  using split_on_three [of "CHR ''.''", OF base64url_no_dot base64url_no_dot base64url_no_dot]
  by (simp add: jwt_token_def jws_sign_def Let_def)

lemma token_payload_jwt_token:
  "token_payload (jwt_token pf claims secret t) = Some (jwt_payload claims t)"
  unfolding token_payload_def jwt_token_segments
  by (simp add: base64url_roundtrip string_of_bytes_of_string parse_json_stringify)

lemma set_property_absent: "map_of kvs k = None \<Longrightarrow> set_property k v kvs = kvs @ [(k, v)]"
  by (induction kvs) (auto split: if_splits)

lemma jwt_payload_no_iat:
  "map_of claims ''iat'' = None \<Longrightarrow> jwt_payload claims t = JObj (claims @ [(''iat'', JNum (t div 1000))])"
  by (simp add: jwt_payload_def set_property_absent)

lemma built_envelope_no_iat: "map_of (built_envelope pf e ws) ''iat'' = None"
  by (simp add: built_envelope_def envelope_fields_def)

lemma built_envelope_names:
  "map fst (built_envelope pf e ws) = [''version'', ''com_key_id'', ''message'', ''begin_date'', ''expiration_date'']"
  "map_option property_names (lookup_path [''message''] (JObj (built_envelope pf e ws))) =
     Some [''type'', ''begin_date'', ''expiration_date'', ''keys'']"
  by (simp_all add: built_envelope_def envelope_fields_def entitlement_message_def)

lemma header_segment:
  "base64url_encode (bytes_of_string (stringify jwt_header)) = ''eyJhbGciOiJIUzI1NiIsInR5cCI6IkpXVCJ9''"
  by (simp add: jwt_header_def quote_def escape_char_def bytes_of_string_def base64url_encode_def
      b64char_def b64chars_def url_char_def)

lemma demo_payload:
  "jwt_payload demo_envelope 1500000000123 = JObj (demo_envelope @ [(''iat'', JNum 1500000000)])"
proof -
  have "map_of demo_envelope ''iat'' = None"
    by (simp add: demo_envelope_def)
  then show ?thesis
    by (simp add: jwt_payload_no_iat)
qed

lemma demo_payload_text:
  "stringify (JObj (demo_envelope @ [(''iat'', JNum 1500000000)])) =
   ''{\"version\":1,\"com_key_id\":\"c1\",\"message\":{\"type\":\"entitlement_message\",\"begin_date\":\"2017-07-13T02:40:00.000Z\",\"expiration_date\":\"2017-07-15T02:40:00.000Z\",\"keys\":[{\"id\":\"00112233-4455-6677-8899-aabbccddeeff\",\"encrypted_key\":\"YC3LIFWaEc6r4w5ARa2Xcg==\"}]},\"begin_date\":\"2017-07-13T02:40:00.000Z\",\"expiration_date\":\"2017-07-15T02:40:00.000Z\",\"iat\":1500000000}''"
  by (simp add: demo_envelope_def demo_wrapped_key_def quote_def escape_char_def show_int_def
      show_nat_digit show_nat_more digit_char_def)

lemma demo_payload_segment:
  "base64url_encode (bytes_of_string (stringify (JObj (demo_envelope @ [(''iat'', JNum 1500000000)])))) =
   ''eyJ2ZXJzaW9uIjoxLCJjb21fa2V5X2lkIjoiYzEiLCJtZXNzYWdlIjp7InR5cGUiOiJlbnRpdGxlbWVudF9tZXNzYWdlIiwiYmVnaW5fZGF0ZSI6IjIwMTctMDctMTNUMDI6NDA6MDAuMDAwWiIsImV4cGlyYXRpb25fZGF0ZSI6IjIwMTctMDctMTVUMDI6NDA6MDAuMDAwWiIsImtleXMiOlt7ImlkIjoiMDAxMTIyMzMtNDQ1NS02Njc3LTg4OTktYWFiYmNjZGRlZWZmIiwiZW5jcnlwdGVkX2tleSI6IllDM0xJRldhRWM2cjR3NUFSYTJYY2c9PSJ9XX0sImJlZ2luX2RhdGUiOiIyMDE3LTA3LTEzVDAyOjQwOjAwLjAwMFoiLCJleHBpcmF0aW9uX2RhdGUiOiIyMDE3LTA3LTE1VDAyOjQwOjAwLjAwMFoiLCJpYXQiOjE1MDAwMDAwMDB9''"
  unfolding demo_payload_text
  by (simp add: bytes_of_string_def base64url_encode_def b64char_def b64chars_def url_char_def)

lemma demo_signature:
  "base64url_encode (hmac_sha256 demo_platform (communicationKeyAsBuffer demo_platform demo_env) m) =
     ''YD3rEBXKcb4rc67whX13gR81LAc7YQjXLZgQowkU3_Q''"
  by (simp add: communicationKeyAsBuffer_def demo_platform_def demo_env_def demo_secrets_def
      hex_digit_def base64url_encode_def b64char_def b64chars_def url_char_def)

lemma demo_token:
  "jwt_token demo_platform demo_envelope (communicationKeyAsBuffer demo_platform demo_env) 1500000000123 =
     demo_token"
  unfolding jwt_token_def jws_sign_def Let_def demo_payload header_segment demo_payload_segment demo_signature
    demo_token_def
  by (simp only: append_assoc)

lemma demo_token_payload:
  "token_payload demo_token = Some (JObj (demo_envelope @ [(''iat'', JNum 1500000000)]))"
  using token_payload_jwt_token [of demo_platform demo_envelope
      "communicationKeyAsBuffer demo_platform demo_env" 1500000000123]
  unfolding demo_token demo_payload .

lemma demo1_token: "tokens (trace (processGet demo_platform demo_env \<lparr>videoName = ''demo1''\<rparr>)) = [demo_token]"
  using demo1_tokens unfolding demo_token .

lemma stringify_inject: "stringify a = stringify b \<Longrightarrow> a = b"
  by (metis option.inject parse_json_stringify)

lemma jwt_token_roundtrip:
  assumes "map_of claims ''iat'' = None"
  shows "token_payload (jwt_token pf claims secret t) = Some (JObj (claims @ [(''iat'', JNum (t div 1000))]))"
    and "map_option (without_property ''iat'') (token_payload (jwt_token pf claims secret t)) = Some (JObj claims)"
    and "map_option (\<lambda>p. base64url_encode (bytes_of_string (stringify p)))
           (token_payload (jwt_token pf claims secret t)) =
         Some (split_on CHR ''.'' (jwt_token pf claims secret t) ! 1)"
proof -
  show p: "token_payload (jwt_token pf claims secret t) = Some (JObj (claims @ [(''iat'', JNum (t div 1000))]))"
    by (simp add: token_payload_jwt_token jwt_payload_no_iat [OF assms])
  have "\<forall>kv \<in> set claims. fst kv \<noteq> ''iat''"
    using assms by (metis map_of_eq_None_iff image_eqI)
  then have "filter (\<lambda>kv. fst kv \<noteq> ''iat'') claims = claims"
    by (simp add: filter_id_conv)
  then show "map_option (without_property ''iat'') (token_payload (jwt_token pf claims secret t)) = Some (JObj claims)"
    by (simp add: p)
  show "map_option (\<lambda>p. base64url_encode (bytes_of_string (stringify p)))
           (token_payload (jwt_token pf claims secret t)) =
         Some (split_on CHR ''.'' (jwt_token pf claims secret t) ! 1)"
    unfolding jwt_token_segments token_payload_jwt_token by simp
qed

lemma processGet_token:
  assumes "signed_payloads (trace (processGet pf e req)) = [envelope]"
  shows "\<exists>ws. envelope = JObj (built_envelope pf e ws)
           \<and> (\<forall>w \<in> set ws. property_names w = [''id'', ''encrypted_key''])
           \<and> tokens (trace (processGet pf e req)) =
               [jwt_token pf (built_envelope pf e ws) (communicationKeyAsBuffer pf e) (date_now e)]"
proof (rule processGet_signed [OF assms], goal_cases)
  case (1 v ws)
  have "property_names w = [''id'', ''encrypted_key'']" if "w \<in> set ws" for w
  proof -
    from that have "Inr w \<in> set (map (wrap_key pf (communicationKeyAsBuffer pf e)) (keys v))"
      using 1(4) by (metis image_eqI list.set_map)
    then obtain k where "wrap_key pf (communicationKeyAsBuffer pf e) k = Inr w" by auto
    then show ?thesis by (simp add: wrap_key_id)
  qed
  moreover have "tokens (trace (processGet pf e req)) =
      [jwt_token pf (built_envelope pf e ws) (communicationKeyAsBuffer pf e) (date_now e)]"
    unfolding 1(6) by (simp add: reads_append reads_cipher_calls)
  ultimately show ?case using 1(5) by blast
qed

lemma byte_of_hex_digits: "of_nat (16 * (unat b div 16) + unat b mod 16) = (b :: byte)"
  by simp

lemma hex_pairs_hex_byte: "hex_pairs (hex_byte b @ rest) = b # hex_pairs rest"
proof -
  have lt: "unat b div 16 < 16"
    using unat_byte_less [of b] by simp
  have "hex_digit (hex_char (unat b div 16)) = Some (unat b div 16)"
    by (rule hex_digit_hex_char [OF lt])
  moreover have "hex_digit (hex_char (unat b)) = Some (unat b mod 16)"
    using hex_digit_hex_char [of "unat b mod 16"] by (simp add: hex_char_def)
  ultimately show ?thesis
    by (simp add: hex_byte_def byte_of_hex_digits del: of_nat_add of_nat_mult)
qed

lemma hex_pairs_hyphen: "hex_pairs (CHR ''-'' # hex_byte b @ rest) = hex_pairs (hex_byte b @ rest)"
  by (simp add: hex_byte_def hex_digit_def)

lemma hex_pairs_hex_byte_last: "hex_pairs (hex_byte b) = [b]"
  using hex_pairs_hex_byte [of b "[]"] by simp

lemma uuid_parse_uuid_string: "uuid_parse (uuid_string u) = bytes_of_block u"
  unfolding uuid_string_def bytes_of_block_def
  by (simp add: upt_rec hex_string_def hex_pairs_hex_byte hex_pairs_hex_byte_last hex_pairs_hyphen
      uuid_parse_def)

lemma byte_recombine: "push_bit 8 (drop_bit 8 w) OR ucast (ucast w :: byte) = (w :: block)"
  by (rule bit_word_eqI) (auto simp: bit_simps)

lemma block_prefix:
  "k \<le> 16 \<Longrightarrow>
     foldl (\<lambda>w b. push_bit 8 w OR ucast b) 0
       (map (\<lambda>i. ucast (drop_bit (8 * (15 - i)) u) :: byte) [0..<k]) =
     drop_bit (8 * (16 - k)) (u :: block)"
proof (induction k)
  case 0
  show ?case by (simp add: drop_bit_word_beyond)
next
  case (Suc k)
  then have k: "k \<le> 16" "k < 16" by simp_all
  have e1: "16 - Suc k = 15 - k" by simp
  have e2: "8 * (16 - k) = 8 + 8 * (15 - k)" using k(2) by simp
  have d: "drop_bit (8 * (16 - k)) u = drop_bit 8 (drop_bit (8 * (15 - k)) u)"
    unfolding e2 by (simp only: drop_bit_drop_bit)
  have "foldl (\<lambda>w b. push_bit 8 w OR ucast b) 0
       (map (\<lambda>i. ucast (drop_bit (8 * (15 - i)) u) :: byte) [0..<Suc k]) =
     push_bit 8 (drop_bit (8 * (16 - k)) u) OR ucast (ucast (drop_bit (8 * (15 - k)) u) :: byte)"
    using Suc.IH [OF k(1)] by simp
  also have "\<dots> = drop_bit (8 * (15 - k)) u"
    unfolding d by (rule byte_recombine)
  finally show ?case unfolding e1 .
qed

lemma block_of_bytes_of_block: "block_of_bytes (bytes_of_block u) = u"
  using block_prefix [of 16 u] by (simp add: block_of_bytes_def bytes_of_block_def)

lemma hex_digit_upper_hex_char: "k < 16 \<Longrightarrow> hex_digit (upper_char (hex_char k)) = Some k"
proof -
  have "\<forall>k \<in> set [0..<16]. hex_digit (upper_char (hex_char k)) = Some k"
    by (simp add: upt_rec hex_char_def hex_digit_def upper_char_def)
  then show "k < 16 \<Longrightarrow> hex_digit (upper_char (hex_char k)) = Some k"
    by simp
qed

lemma hex_pairs_upper_hex_byte: "hex_pairs (map upper_char (hex_byte b) @ rest) = b # hex_pairs rest"
proof -
  have lt: "unat b div 16 < 16"
    using unat_byte_less [of b] by simp
  have "hex_digit (upper_char (hex_char (unat b div 16))) = Some (unat b div 16)"
    by (rule hex_digit_upper_hex_char [OF lt])
  moreover have "hex_digit (upper_char (hex_char (unat b))) = Some (unat b mod 16)"
    using hex_digit_upper_hex_char [of "unat b mod 16"] by (simp add: hex_char_def)
  ultimately show ?thesis
    by (simp add: hex_byte_def byte_of_hex_digits del: of_nat_add of_nat_mult)
qed

lemma hex_pairs_upper_hex_byte_last: "hex_pairs (map upper_char (hex_byte b)) = [b]"
  using hex_pairs_upper_hex_byte [of b "[]"] by simp

lemma hex_pairs_upper_hyphen:
  "hex_pairs (CHR ''-'' # map upper_char (hex_byte b) @ rest) = hex_pairs (map upper_char (hex_byte b) @ rest)"
  by (simp add: hex_byte_def hex_digit_def)

lemma upper_hyphen: "upper_char CHR ''-'' = CHR ''-''"
  by (simp add: upper_char_def)

lemma uuid_parse_upper_uuid_string: "uuid_parse (map upper_char (uuid_string u)) = bytes_of_block u"
  unfolding uuid_string_def bytes_of_block_def
  by (simp add: upt_rec hex_string_def hex_pairs_upper_hex_byte hex_pairs_upper_hex_byte_last
      hex_pairs_upper_hyphen upper_hyphen uuid_parse_def)

lemma uuid_string_demo:
  "uuid_string 0x00112233445566778899aabbccddeeff = ''00112233-4455-6677-8899-aabbccddeeff''"
  "uuid_string 0x0f1e2d3c4b5a69788796a5b4c3d2e1f0 = ''0f1e2d3c-4b5a-6978-8796-a5b4c3d2e1f0''"
  by (simp_all add: uuid_string_def bytes_of_block_def upt_rec hex_string_def hex_byte_def hex_char_def)

lemma wrap_key_wrapped:
  assumes "length ck = 32" and "length (from_base64 pf (key k)) mod 16 = 0"
  shows "wrap_key pf ck k = Inr (wrapped_key pf ck k)"
  using wrap_key_ok [OF assms] by (simp add: wrapped_key_def)

lemma wrap_keys_wrapped:
  assumes "length ck = 32" and "\<forall>k \<in> set ks. length (from_base64 pf (key k)) mod 16 = 0"
  shows "map Inr (map (wrapped_key pf ck) ks) = map (wrap_key pf ck) ks"
  using assms by (simp add: wrap_key_wrapped)

lemma processGet_success:
  assumes "getVideoByName e (videoName req) = Some v"
    and "truthy_licenseToken v = None"
    and "areSecretsAvailable e"
    and "length (communicationKeyAsBuffer pf e) = 32"
    and "\<forall>k \<in> set (keys v). length (from_base64 pf (key k)) mod 16 = 0"
  shows "processGet pf e req =
       \<lparr>trace = [Called_getVideoByName (videoName req), Called_areSecretsAvailable, Called_getSecrets, Called_moment]
                  @ cipher_calls (communicationKeyAsBuffer pf e) (keys v)
                  @ [Console_log (''Creating license token with payload: '' @
                       stringify (JObj (built_envelope pf e (map (wrapped_key pf (communicationKeyAsBuffer pf e)) (keys v))))),
                     Called_jwt_sign (JObj (built_envelope pf e (map (wrapped_key pf (communicationKeyAsBuffer pf e)) (keys v)))),
                     Response_json (JStr (jwt_token pf
                       (built_envelope pf e (map (wrapped_key pf (communicationKeyAsBuffer pf e)) (keys v)))
                       (communicationKeyAsBuffer pf e) (date_now e)))],
        thrown = None\<rparr>"
proof -
  have run: "processGet pf e req = generate_token pf e v [Called_getVideoByName (videoName req)]"
    using assms(1,2) by (simp add: processGet_def)
  show ?thesis
    unfolding run
    using generate_token_success [OF assms(3) wrap_keys_wrapped [OF assms(4,5)], of "[Called_getVideoByName (videoName req)]"]
    by simp
qed

lemma long_key_bytes:
  "length (from_base64 demo_platform (key long_key)) = 32"
  "blocks_of (from_base64 demo_platform (key long_key)) =
     [0x101112131415161718191a1b1c1d1e1f, 0x202122232425262728292a2b2c2d2e2f]"
  by (simp_all add: demo_platform_def long_key_def demo_from_base64_def base64url_decode_def
      url_char_def b64url_chars_def blocks_of_def block_of_bytes_def upt_rec)

lemma long_key_id: "keyId long_key = uuid_string 0x0f1e2d3c4b5a69788796a5b4c3d2e1f0"
  by (simp add: uuid_string_demo long_key_def)

lemma demo_key_id: "keyId demo_key = uuid_string 0x00112233445566778899aabbccddeeff"
  by (simp add: uuid_string_demo demo_key_def)

lemma demo_aes:
  "aes256_encrypt demo_platform (communicationKeyAsBuffer demo_platform demo_env) b =
     (b XOR 0x603deb1015ca71be2b73aef0857d7781) + 1"
  using demo_communicationKey(2) by (simp add: demo_platform_def)

lemma long_chain:
  "cbc_chain (aes256_encrypt demo_platform (communicationKeyAsBuffer demo_platform demo_env))
     (block_of_bytes (uuid_parse (keyId long_key)))
     (blocks_of (from_base64 demo_platform (key long_key))) =
   [0x7f32d43f4a850ed1b4fc115f5ab2886f, 0x3f2e1d0c7b6a5948b7a69584f3e2d1c2]"
  unfolding long_key_bytes long_key_id uuid_parse_uuid_string block_of_bytes_of_block
  by (simp add: demo_aes)

lemma long_wrapped:
  "wrapped_key demo_platform (communicationKeyAsBuffer demo_platform demo_env) long_key =
     JObj [(''id'', JStr ''0f1e2d3c-4b5a-6978-8796-a5b4c3d2e1f0''),
           (''encrypted_key'', JStr ''fzLUP0qFDtG0/BFfWrKIbz8uHQx7allIt6aVhPPi0cI='')]"
proof -
  have b64: "base64_encode (concat (map bytes_of_block
       [0x7f32d43f4a850ed1b4fc115f5ab2886f, 0x3f2e1d0c7b6a5948b7a69584f3e2d1c2])) =
      ''fzLUP0qFDtG0/BFfWrKIbz8uHQx7allIt6aVhPPi0cI=''"
    by (simp add: bytes_of_block_def upt_rec b64char_def b64chars_def)
  show ?thesis
    unfolding wrapped_key_def cbc_encrypt_nopad_def long_chain b64
    by (simp add: long_key_def)
qed

lemma demo_wrapped:
  "wrapped_key demo_platform (communicationKeyAsBuffer demo_platform demo_env) demo_key = demo_wrapped_key"
proof -
  have whole: "length (from_base64 demo_platform (key demo_key)) mod 16 = 0"
    by (simp add: demo_key_bytes)
  from wrap_key_wrapped [OF demo_communicationKey(1) whole] demo_wrap show ?thesis
    by simp
qed

lemma processGet_constructs:
  assumes "getVideoByName e (videoName req) = Some v"
    and "truthy_licenseToken v = None"
    and "areSecretsAvailable e"
    and "\<forall>k \<in> set (keys v). length (communicationKeyAsBuffer pf e) = 32
           \<and> length (from_base64 pf (key k)) mod 16 = 0"
  shows "processGet pf e req =
       \<lparr>trace = [Called_getVideoByName (videoName req), Called_areSecretsAvailable, Called_getSecrets, Called_moment]
                  @ cipher_calls (communicationKeyAsBuffer pf e) (keys v)
                  @ [Console_log (''Creating license token with payload: '' @
                       stringify (JObj (built_envelope pf e (map (wrapped_key pf (communicationKeyAsBuffer pf e)) (keys v))))),
                     Called_jwt_sign (JObj (built_envelope pf e (map (wrapped_key pf (communicationKeyAsBuffer pf e)) (keys v)))),
                     Response_json (JStr (jwt_token pf
                       (built_envelope pf e (map (wrapped_key pf (communicationKeyAsBuffer pf e)) (keys v)))
                       (communicationKeyAsBuffer pf e) (date_now e)))],
        thrown = None\<rparr>"
proof -
  have run: "processGet pf e req = generate_token pf e v [Called_getVideoByName (videoName req)]"
    using assms(1,2) by (simp add: processGet_def)
  have ws: "map Inr (map (wrapped_key pf (communicationKeyAsBuffer pf e)) (keys v)) =
      map (wrap_key pf (communicationKeyAsBuffer pf e)) (keys v)"
    using assms(4) by (simp add: wrap_key_wrapped)
  show ?thesis
    unfolding run
    using generate_token_success [OF assms(3) ws, of "[Called_getVideoByName (videoName req)]"]
    by simp
qed

lemma constructed_reads:
  assumes "getVideoByName e (videoName req) = Some v"
    and "truthy_licenseToken v = None"
    and "areSecretsAvailable e"
    and "\<forall>k \<in> set (keys v). length (communicationKeyAsBuffer pf e) = 32
           \<and> length (from_base64 pf (key k)) mod 16 = 0"
  shows "signed_payloads (trace (processGet pf e req)) =
           [JObj (built_envelope pf e (map (wrapped_key pf (communicationKeyAsBuffer pf e)) (keys v)))]"
    and "tokens (trace (processGet pf e req)) =
           [jwt_token pf (built_envelope pf e (map (wrapped_key pf (communicationKeyAsBuffer pf e)) (keys v)))
              (communicationKeyAsBuffer pf e) (date_now e)]"
    and "thrown (processGet pf e req) = None"
  unfolding processGet_constructs [OF assms]
  by (simp_all add: reads_append reads_cipher_calls)

lemma built_envelope_explicit:
  "built_envelope pf e ws =
     [(''version'', JNum 1),
      (''com_key_id'', JStr (communicationKeyId (getSecrets e))),
      (''message'',
       JObj [(''type'', JStr ''entitlement_message''),
             (''begin_date'', JStr (toISOString pf (add_days pf (- 1) (moment_now e)))),
             (''expiration_date'', JStr (toISOString pf (add_days pf 1 (moment_now e)))),
             (''keys'', JArr ws)]),
      (''begin_date'', JStr (toISOString pf (add_days pf (- 1) (moment_now e)))),
      (''expiration_date'', JStr (toISOString pf (add_days pf 1 (moment_now e))))]"
  by (simp add: built_envelope_def envelope_fields_def entitlement_message_def begin_date_def
      expiration_date_def)

lemma jwt_token_three_segments:
  "length (split_on CHR ''.'' (jwt_token pf claims secret t)) = 3"
  "\<forall>segment \<in> set (split_on CHR ''.'' (jwt_token pf claims secret t)). set segment \<subseteq> set b64url_chars"
  "hd (split_on CHR ''.'' (jwt_token pf claims secret t)) = ''eyJhbGciOiJIUzI1NiIsInR5cCI6IkpXVCJ9''"
proof -
  show "length (split_on CHR ''.'' (jwt_token pf claims secret t)) = 3"
    unfolding jwt_token_segments by simp
  show "\<forall>segment \<in> set (split_on CHR ''.'' (jwt_token pf claims secret t)). set segment \<subseteq> set b64url_chars"
    unfolding jwt_token_segments by (simp add: base64url_alphabet)
  show "hd (split_on CHR ''.'' (jwt_token pf claims secret t)) = ''eyJhbGciOiJIUzI1NiIsInR5cCI6IkpXVCJ9''"
    unfolding jwt_token_segments by (simp add: header_segment)
qed

lemma dst_platform_same:
  "aes256_encrypt dst_platform = aes256_encrypt demo_platform"
  "hmac_sha256 dst_platform = hmac_sha256 demo_platform"
  "from_base64 dst_platform = from_base64 demo_platform"
  "from_hex dst_platform = from_hex demo_platform"
  "toISOString dst_platform = demo_iso"
  by (simp_all add: dst_platform_def demo_platform_def)

lemma dst_env_same:
  "getVideoByName dst_env = getVideoByName demo_env"
  "areSecretsAvailable dst_env"
  "getSecrets dst_env = getSecrets demo_env"
  "moment_now dst_env = 1489251600000"
  by (simp_all add: dst_env_def demo_env_def)

lemma dst_communicationKey:
  "communicationKeyAsBuffer dst_platform dst_env = communicationKeyAsBuffer demo_platform demo_env"
  by (simp add: communicationKeyAsBuffer_def dst_platform_same dst_env_same)

lemma dst_wrapped:
  "wrapped_key dst_platform ck k = wrapped_key demo_platform ck k"
  by (simp add: wrapped_key_def dst_platform_same)

lemma dst_add_days:
  "add_days dst_platform (- 1) 1489251600000 = 1489165200000"
  "add_days dst_platform 1 1489251600000 = 1489334400000"
  by (simp_all add: dst_platform_def local_add_days_def new_york_offset_def)

lemma dst_iso:
  "demo_iso 1489165200000 = ''2017-03-10T17:00:00.000Z''"
  "demo_iso 1489251600000 = ''2017-03-11T17:00:00.000Z''"
  "demo_iso 1489334400000 = ''2017-03-12T16:00:00.000Z''"
  "demo_iso 1489338000000 = ''2017-03-12T17:00:00.000Z''"
  by (simp_all add: demo_iso_eval show_nat_eval)

lemma dst_dates:
  "begin_date dst_platform dst_env = ''2017-03-10T17:00:00.000Z''"
  "expiration_date dst_platform dst_env = ''2017-03-12T16:00:00.000Z''"
  unfolding begin_date_def expiration_date_def dst_env_same dst_add_days dst_platform_same dst_iso
  by simp_all

lemma dst_video:
  "getVideoByName dst_env (videoName \<lparr>videoName = ''demo1''\<rparr>) = Some \<lparr>licenseToken = None, keys = [demo_key]\<rparr>"
  unfolding dst_env_same by (rule demo1_video)

lemma dst_whole:
  "\<forall>k \<in> set (keys \<lparr>licenseToken = None, keys = [demo_key]\<rparr>).
     length (communicationKeyAsBuffer dst_platform dst_env) = 32
     \<and> length (from_base64 dst_platform (key k)) mod 16 = 0"
  by (simp add: dst_communicationKey dst_platform_same demo_communicationKey demo_key_bytes)

lemma dst_payloads:
  "signed_payloads (trace (processGet dst_platform dst_env \<lparr>videoName = ''demo1''\<rparr>)) =
     [JObj (built_envelope dst_platform dst_env [demo_wrapped_key])]"
  "thrown (processGet dst_platform dst_env \<lparr>videoName = ''demo1''\<rparr>) = None"
  using constructed_reads(1,3) [OF dst_video demo1_truthy dst_env_same(2) dst_whole]
  by (simp_all add: dst_wrapped dst_communicationKey demo_wrapped)

lemma window_of_24_hour_days:
  assumes "\<forall>n t. add_days pf n t = t + n * 86400000"
  shows "begin_date pf e = toISOString pf (moment_now e - 86400000)"
    and "expiration_date pf e = toISOString pf (moment_now e + 86400000)"
  by (simp_all add: begin_date_def expiration_date_def assms)

section \<open>The claims\<close>

text \<open>
  Claim C1 (key wrapping). Let the communication key have the 32 bytes of an AES-256 key,
  let the bytes of the content key be a whole number of 16-byte blocks, and let the
  identifier of the content key be the canonical string of the UUID \<open>u\<close>. Then
  encrypting the key succeeds, and the cipher object, driven through
  \<^verbatim>\<open>update\<close> and \<^verbatim>\<open>final\<close> with padding off, produces what the textbook's CBC
  encryption without padding produces under the communication key with the 16 bytes of
  \<open>u\<close>, most significant byte first, as the initialization vector. The field
  \<^verbatim>\<open>encrypted_key\<close> is the base64 of that ciphertext, the ciphertext is as long as
  the key, and the field \<^verbatim>\<open>id\<close> is the canonical string of \<open>u\<close>. The 16 bytes
  determine \<open>u\<close>, and \<^verbatim>\<open>uuid.parse\<close> reads them from the canonical string and from
  the same string in upper case alike.
\<close>

theorem wrap_key_cbc:
  assumes "length ck = 32"
    and "length (from_base64 pf (key k)) mod 16 = 0"
    and "keyId k = uuid_string u"
  shows "wrap_key pf ck k =
           Inr (JObj [(''id'', JStr (uuid_string u)),
                      (''encrypted_key'',
                       JStr (base64_encode
                         (cbc_encrypt_nopad (aes256_encrypt pf ck) (bytes_of_block u)
                            (from_base64 pf (key k)))))])
         \<and> length (cbc_encrypt_nopad (aes256_encrypt pf ck) (bytes_of_block u)
                     (from_base64 pf (key k))) = length (from_base64 pf (key k))
         \<and> length (bytes_of_block u) = 16
         \<and> block_of_bytes (bytes_of_block u) = u
         \<and> uuid_parse (uuid_string u) = bytes_of_block u
         \<and> uuid_parse (map upper_char (uuid_string u)) = bytes_of_block u"
  using wrap_key_ok [OF assms(1,2)]
  by (simp add: assms(3) uuid_parse_uuid_string uuid_parse_upper_uuid_string block_of_bytes_of_block)

theorem wrap_key_cbc_witness:
  "wrap_key demo_platform (communicationKeyAsBuffer demo_platform demo_env) long_key =
     Inr (JObj [(''id'', JStr (uuid_string 0x0f1e2d3c4b5a69788796a5b4c3d2e1f0)),
                (''encrypted_key'',
                 JStr (base64_encode
                   (cbc_encrypt_nopad
                      (aes256_encrypt demo_platform (communicationKeyAsBuffer demo_platform demo_env))
                      (bytes_of_block 0x0f1e2d3c4b5a69788796a5b4c3d2e1f0)
                      (from_base64 demo_platform (key long_key)))))])
   \<and> length (cbc_encrypt_nopad
                (aes256_encrypt demo_platform (communicationKeyAsBuffer demo_platform demo_env))
                (bytes_of_block 0x0f1e2d3c4b5a69788796a5b4c3d2e1f0)
                (from_base64 demo_platform (key long_key))) = 32
   \<and> uuid_string 0x0f1e2d3c4b5a69788796a5b4c3d2e1f0 = ''0f1e2d3c-4b5a-6978-8796-a5b4c3d2e1f0''
   \<and> blocks_of (from_base64 demo_platform (key long_key)) =
       [0x101112131415161718191a1b1c1d1e1f, 0x202122232425262728292a2b2c2d2e2f]
   \<and> cbc_chain (aes256_encrypt demo_platform (communicationKeyAsBuffer demo_platform demo_env))
         0x0f1e2d3c4b5a69788796a5b4c3d2e1f0 (blocks_of (from_base64 demo_platform (key long_key))) =
       [0x7f32d43f4a850ed1b4fc115f5ab2886f, 0x3f2e1d0c7b6a5948b7a69584f3e2d1c2]
   \<and> wrap_key demo_platform (communicationKeyAsBuffer demo_platform demo_env) long_key =
       Inr (JObj [(''id'', JStr ''0f1e2d3c-4b5a-6978-8796-a5b4c3d2e1f0''),
                  (''encrypted_key'', JStr ''fzLUP0qFDtG0/BFfWrKIbz8uHQx7allIt6aVhPPi0cI='')])"
proof -
  have whole: "length (from_base64 demo_platform (key long_key)) mod 16 = 0"
    by (simp add: long_key_bytes)
  note inst = wrap_key_cbc [OF demo_communicationKey(1) whole long_key_id]
  have chain: "cbc_chain (aes256_encrypt demo_platform (communicationKeyAsBuffer demo_platform demo_env))
         0x0f1e2d3c4b5a69788796a5b4c3d2e1f0 (blocks_of (from_base64 demo_platform (key long_key))) =
       [0x7f32d43f4a850ed1b4fc115f5ab2886f, 0x3f2e1d0c7b6a5948b7a69584f3e2d1c2]"
    using long_chain unfolding long_key_id uuid_parse_uuid_string block_of_bytes_of_block .
  have wrapped: "wrap_key demo_platform (communicationKeyAsBuffer demo_platform demo_env) long_key =
       Inr (JObj [(''id'', JStr ''0f1e2d3c-4b5a-6978-8796-a5b4c3d2e1f0''),
                  (''encrypted_key'', JStr ''fzLUP0qFDtG0/BFfWrKIbz8uHQx7allIt6aVhPPi0cI='')])"
    using wrap_key_wrapped [OF demo_communicationKey(1) whole] unfolding long_wrapped .
  from inst have len: "length (cbc_encrypt_nopad
                (aes256_encrypt demo_platform (communicationKeyAsBuffer demo_platform demo_env))
                (bytes_of_block 0x0f1e2d3c4b5a69788796a5b4c3d2e1f0)
                (from_base64 demo_platform (key long_key))) = 32"
    unfolding long_key_bytes(1) by blast
  from inst len uuid_string_demo(2) long_key_bytes(2) chain wrapped show ?thesis
    by blast
qed

text \<open>
  Claim C2 (malformed key length). Let a request reach the generation of a token for a
  video of which one content key has a number of bytes that is no multiple of 16. Then
  encrypting that key throws, so no wrapped key exists for it: with a communication key
  of 32 bytes the error is the cipher's refusal to finish on a partial block (nothing is
  cut off or padded), and with any other communication key the cipher is not even
  created. The handler ends by the error: it sends no body, signs no envelope and logs
  no envelope.
\<close>

theorem malformed_key_aborts:
  assumes "getVideoByName e (videoName req) = Some v"
    and "truthy_licenseToken v = None"
    and "areSecretsAvailable e"
    and "k \<in> set (keys v)"
    and "length (from_base64 pf (key k)) mod 16 \<noteq> 0"
  shows "wrap_key pf (communicationKeyAsBuffer pf e) k =
           Inl (if length (communicationKeyAsBuffer pf e) = 32 then DataNotMultipleOfBlockLength
                else InvalidKeyLength)
         \<and> thrown (processGet pf e req) \<noteq> None
         \<and> (length (communicationKeyAsBuffer pf e) = 32 \<longrightarrow>
              thrown (processGet pf e req) = Some DataNotMultipleOfBlockLength)
         \<and> bodies (trace (processGet pf e req)) = []
         \<and> signed_payloads (trace (processGet pf e req)) = []
         \<and> console (trace (processGet pf e req)) = []"
proof -
  let ?ck = "communicationKeyAsBuffer pf e"
  have bad: "wrap_key pf ?ck k =
      Inl (if length ?ck = 32 then DataNotMultipleOfBlockLength else InvalidKeyLength)"
    using assms(5) by (rule wrap_key_bad_length)
  have run: "processGet pf e req = generate_token pf e v [Called_getVideoByName (videoName req)]"
    using assms(1,2) by (simp add: processGet_def)
  show ?thesis
  proof (rule generate_token_cases [OF assms(3), of pf v "[Called_getVideoByName (videoName req)]"], goal_cases)
    case (1 err n)
    from 1(2) obtain k' where k': "k' \<in> set (keys v)" "wrap_key pf ?ck k' = Inl err" by blast
    have "length ?ck = 32 \<Longrightarrow> err = DataNotMultipleOfBlockLength"
    proof -
      assume len: "length ?ck = 32"
      show "err = DataNotMultipleOfBlockLength"
      proof (cases "length (from_base64 pf (key k')) mod 16 = 0")
        case True
        from wrap_key_ok [OF len True] k'(2) show ?thesis by simp
      next
        case False
        from wrap_key_malformed [OF len False] k'(2) show ?thesis by simp
      qed
    qed
    with 1(1) run bad show ?thesis
      by (simp add: reads_append reads_cipher_calls)
  next
    case (2 ws)
    from 2(1) assms(4) have "\<exists>w. wrap_key pf ?ck k = Inr w"
      by (metis (no_types, lifting) image_iff list.set_map)
    with bad show ?thesis by simp
  qed
qed

theorem malformed_key_aborts_witness:
  "wrap_key demo_platform (communicationKeyAsBuffer demo_platform demo_env) short_key =
     Inl DataNotMultipleOfBlockLength
   \<and> thrown (processGet demo_platform demo_env \<lparr>videoName = ''demo3''\<rparr>) = Some DataNotMultipleOfBlockLength
   \<and> bodies (trace (processGet demo_platform demo_env \<lparr>videoName = ''demo3''\<rparr>)) = []
   \<and> signed_payloads (trace (processGet demo_platform demo_env \<lparr>videoName = ''demo3''\<rparr>)) = []
   \<and> console (trace (processGet demo_platform demo_env \<lparr>videoName = ''demo3''\<rparr>)) = []"
proof -
  have v: "getVideoByName demo_env (videoName \<lparr>videoName = ''demo3''\<rparr>) =
             Some \<lparr>licenseToken = None, keys = [demo_key, short_key]\<rparr>"
    by (simp add: demo_env_def demo_catalog_def)
  have t: "truthy_licenseToken \<lparr>licenseToken = None, keys = [demo_key, short_key]\<rparr> = None"
    by (simp add: truthy_licenseToken_def)
  have av: "areSecretsAvailable demo_env" by (simp add: demo_env_def)
  have k: "short_key \<in> set (keys \<lparr>licenseToken = None, keys = [demo_key, short_key]\<rparr>)"
    by simp
  have bad: "length (from_base64 demo_platform (key short_key)) mod 16 \<noteq> 0"
    by (simp add: short_key_bytes)
  show ?thesis
    using malformed_key_aborts [OF v t av k bad] demo_communicationKey(1) by simp
qed

text \<open>
  Claim C3 (determinism). Take two requests, in two surroundings, that reach the
  generation of a token with the same secrets and the same list of content keys;
  everything else may differ (the name asked for, the rest of the catalog, the time of
  signing). Then both runs wrap the same keys and end in the same way, and when
  \<^verbatim>\<open>moment()\<close> reads the same instant in both, they build the same envelope. Only
  the platform's functions, the secrets, the keys and the instant enter; the
  initialization vector comes from the key identifier.
\<close>

theorem wrap_and_build_deterministic:
  assumes "getVideoByName e1 (videoName r1) = Some v1"
    and "getVideoByName e2 (videoName r2) = Some v2"
    and "truthy_licenseToken v1 = None" and "truthy_licenseToken v2 = None"
    and "areSecretsAvailable e1" and "areSecretsAvailable e2"
    and "getSecrets e1 = getSecrets e2"
    and "keys v1 = keys v2"
  shows "map envelope_keys (signed_payloads (trace (processGet pf e1 r1))) =
           map envelope_keys (signed_payloads (trace (processGet pf e2 r2)))
         \<and> thrown (processGet pf e1 r1) = thrown (processGet pf e2 r2)
         \<and> (moment_now e1 = moment_now e2 \<longrightarrow>
              signed_payloads (trace (processGet pf e1 r1)) =
                signed_payloads (trace (processGet pf e2 r2)))"
proof -
  have run1: "processGet pf e1 r1 = generate_token pf e1 v1 [Called_getVideoByName (videoName r1)]"
    using assms(1,3) by (simp add: processGet_def)
  have run2: "processGet pf e2 r2 = generate_token pf e2 v2 [Called_getVideoByName (videoName r2)]"
    using assms(2,4) by (simp add: processGet_def)
  have ck: "communicationKeyAsBuffer pf e1 = communicationKeyAsBuffer pf e2"
    using assms(7) by (simp add: communicationKeyAsBuffer_def)
  show ?thesis
    unfolding run1 run2 generate_token_payloads [OF assms(5)] generate_token_payloads [OF assms(6)]
    using built_envelope_cong [OF assms(7), of pf]
    by (simp add: ck assms(8) lookup_built_envelope split: sum.splits)
qed

theorem wrap_and_build_deterministic_witness:
  "map envelope_keys (signed_payloads (trace (processGet demo_platform demo_env \<lparr>videoName = ''demo1''\<rparr>))) =
     map envelope_keys (signed_payloads (trace
       (processGet demo_platform (demo_env\<lparr>date_now := 1500000099999\<rparr>) \<lparr>videoName = ''demo1''\<rparr>)))
   \<and> thrown (processGet demo_platform demo_env \<lparr>videoName = ''demo1''\<rparr>) =
     thrown (processGet demo_platform (demo_env\<lparr>date_now := 1500000099999\<rparr>) \<lparr>videoName = ''demo1''\<rparr>)
   \<and> signed_payloads (trace (processGet demo_platform demo_env \<lparr>videoName = ''demo1''\<rparr>)) =
     signed_payloads (trace (processGet demo_platform (demo_env\<lparr>date_now := 1500000099999\<rparr>) \<lparr>videoName = ''demo1''\<rparr>))
   \<and> signed_payloads (trace (processGet demo_platform demo_env \<lparr>videoName = ''demo1''\<rparr>)) = [JObj demo_envelope]"
proof -
  have v2: "getVideoByName (demo_env\<lparr>date_now := 1500000099999\<rparr>) (videoName \<lparr>videoName = ''demo1''\<rparr>) =
      Some \<lparr>licenseToken = None, keys = [demo_key]\<rparr>"
    using demo1_video by simp
  have av2: "areSecretsAvailable (demo_env\<lparr>date_now := 1500000099999\<rparr>)"
    using demo_available by simp
  have s: "getSecrets demo_env = getSecrets (demo_env\<lparr>date_now := 1500000099999\<rparr>)"
    by simp
  have m: "moment_now demo_env = moment_now (demo_env\<lparr>date_now := 1500000099999\<rparr>)"
    by simp
  from wrap_and_build_deterministic [OF demo1_video v2 demo1_truthy demo1_truthy demo_available av2 s refl,
        of demo_platform] m demo1_payloads
  show ?thesis by blast
qed

text \<open>
  Claim C4 (order preservation). Let a request reach the generation of a token for a
  video with any number of content keys, none, one or more, each of which can be wrapped
  (the communication key has 32 bytes and the key is a whole number of 16-byte blocks;
  for a video without keys nothing is asked of the communication key). Then the handler
  throws nothing and signs one envelope, and the array \<^verbatim>\<open>message.keys\<close> of that
  envelope is the list of the wrapped keys of the video's content keys in their order: it
  has as many entries as the video has keys, and the entry at each position is the
  wrapping of the key at that position, with that key's identifier as its \<^verbatim>\<open>id\<close>.
\<close>

theorem keys_in_input_order:
  assumes "getVideoByName e (videoName req) = Some v"
    and "truthy_licenseToken v = None"
    and "areSecretsAvailable e"
    and "\<forall>k \<in> set (keys v). length (communicationKeyAsBuffer pf e) = 32
           \<and> length (from_base64 pf (key k)) mod 16 = 0"
  shows "thrown (processGet pf e req) = None
         \<and> signed_payloads (trace (processGet pf e req)) =
             [JObj (built_envelope pf e (map (wrapped_key pf (communicationKeyAsBuffer pf e)) (keys v)))]
         \<and> map envelope_keys (signed_payloads (trace (processGet pf e req))) =
             [map (wrapped_key pf (communicationKeyAsBuffer pf e)) (keys v)]
         \<and> map (length \<circ> envelope_keys) (signed_payloads (trace (processGet pf e req))) = [length (keys v)]
         \<and> map (map (property ''id'') \<circ> envelope_keys) (signed_payloads (trace (processGet pf e req))) =
             [map (\<lambda>k. Some (JStr (keyId k))) (keys v)]"
  unfolding processGet_constructs [OF assms]
  by (simp add: reads_append reads_cipher_calls lookup_built_envelope wrapped_key_def comp_def)

theorem keys_in_input_order_witness:
  "thrown (processGet demo_platform demo_env \<lparr>videoName = ''demo4''\<rparr>) = None
   \<and> map envelope_keys (signed_payloads (trace (processGet demo_platform demo_env \<lparr>videoName = ''demo4''\<rparr>))) =
       [[JObj [(''id'', JStr ''0f1e2d3c-4b5a-6978-8796-a5b4c3d2e1f0''),
               (''encrypted_key'', JStr ''fzLUP0qFDtG0/BFfWrKIbz8uHQx7allIt6aVhPPi0cI='')],
         JObj [(''id'', JStr ''00112233-4455-6677-8899-aabbccddeeff''),
               (''encrypted_key'', JStr ''YC3LIFWaEc6r4w5ARa2Xcg=='')]]]
   \<and> map (length \<circ> envelope_keys)
         (signed_payloads (trace (processGet demo_platform demo_env \<lparr>videoName = ''demo4''\<rparr>))) = [2]"
proof -
  have v: "getVideoByName demo_env (videoName \<lparr>videoName = ''demo4''\<rparr>) =
      Some \<lparr>licenseToken = None, keys = [long_key, demo_key]\<rparr>"
    by (simp add: demo_env_def demo_catalog_def)
  have t: "truthy_licenseToken \<lparr>licenseToken = None, keys = [long_key, demo_key]\<rparr> = None"
    by (simp add: truthy_licenseToken_def)
  have whole: "\<forall>k \<in> set (keys \<lparr>licenseToken = None, keys = [long_key, demo_key]\<rparr>).
      length (communicationKeyAsBuffer demo_platform demo_env) = 32
      \<and> length (from_base64 demo_platform (key k)) mod 16 = 0"
    by (simp add: demo_communicationKey long_key_bytes demo_key_bytes)
  note inst = keys_in_input_order [OF v t demo_available whole]
  have ws: "map (wrapped_key demo_platform (communicationKeyAsBuffer demo_platform demo_env))
        (keys \<lparr>licenseToken = None, keys = [long_key, demo_key]\<rparr>) =
      [JObj [(''id'', JStr ''0f1e2d3c-4b5a-6978-8796-a5b4c3d2e1f0''),
             (''encrypted_key'', JStr ''fzLUP0qFDtG0/BFfWrKIbz8uHQx7allIt6aVhPPi0cI='')],
       JObj [(''id'', JStr ''00112233-4455-6677-8899-aabbccddeeff''),
             (''encrypted_key'', JStr ''YC3LIFWaEc6r4w5ARa2Xcg=='')]]"
    by (simp add: long_wrapped demo_wrapped demo_wrapped_key_def)
  have len: "length (keys \<lparr>licenseToken = None, keys = [long_key, demo_key]\<rparr>) = 2"
    by simp
  from inst show ?thesis
    unfolding ws len by blast
qed



text \<open>
  Claim C6 (hardcoded token). When the video found has a license token that is not the
  empty string, the run consists of the lookup and of the response, which is that very
  token as JSON with the status 200. The secret management is not asked, no cipher is
  created, nothing is signed and nothing is logged.
\<close>

theorem hardcoded_token_short_circuit:
  assumes "getVideoByName e (videoName req) = Some v"
    and "licenseToken v = Some token" and "token \<noteq> []"
  shows "processGet pf e req =
           \<lparr>trace = [Called_getVideoByName (videoName req), Response_json (JStr token)], thrown = None\<rparr>
         \<and> tokens (trace (processGet pf e req)) = [token]
         \<and> response_status (trace (processGet pf e req)) = 200
         \<and> Called_areSecretsAvailable \<notin> set (trace (processGet pf e req))
         \<and> ciphers_created (trace (processGet pf e req)) = []
         \<and> signed_payloads (trace (processGet pf e req)) = []
         \<and> console (trace (processGet pf e req)) = []"
  using assms by (simp add: processGet_def truthy_licenseToken_def response_status_def)

theorem hardcoded_token_short_circuit_witness:
  "processGet demo_platform demo_env \<lparr>videoName = ''demo2''\<rparr> =
     \<lparr>trace = [Called_getVideoByName (videoName \<lparr>videoName = ''demo2''\<rparr>),
                Response_json (JStr ''aaa.bbb.ccc'')], thrown = None\<rparr>
   \<and> tokens (trace (processGet demo_platform demo_env \<lparr>videoName = ''demo2''\<rparr>)) = [''aaa.bbb.ccc'']
   \<and> response_status (trace (processGet demo_platform demo_env \<lparr>videoName = ''demo2''\<rparr>)) = 200
   \<and> Called_areSecretsAvailable \<notin> set (trace (processGet demo_platform demo_env \<lparr>videoName = ''demo2''\<rparr>))
   \<and> ciphers_created (trace (processGet demo_platform demo_env \<lparr>videoName = ''demo2''\<rparr>)) = []
   \<and> signed_payloads (trace (processGet demo_platform demo_env \<lparr>videoName = ''demo2''\<rparr>)) = []
   \<and> console (trace (processGet demo_platform demo_env \<lparr>videoName = ''demo2''\<rparr>)) = []"
proof -
  have v: "getVideoByName demo_env (videoName \<lparr>videoName = ''demo2''\<rparr>) =
      Some \<lparr>licenseToken = Some ''aaa.bbb.ccc'', keys = []\<rparr>"
    by (simp add: demo_env_def demo_catalog_def)
  have t: "licenseToken \<lparr>licenseToken = Some ''aaa.bbb.ccc'', keys = []\<rparr> = Some ''aaa.bbb.ccc''"
    by simp
  have n: "''aaa.bbb.ccc'' \<noteq> []" by simp
  show ?thesis
    by (rule hardcoded_token_short_circuit [OF v t n])
qed

text \<open>
  Claim C7 (secrets gate). When the video found has no license token of its own and the
  secrets are not available, the handler logs the error and answers with the status 500
  and the text that the secrets file must be configured. It throws nothing, creates no
  cipher and signs nothing.
\<close>

theorem secrets_gate:
  assumes "getVideoByName e (videoName req) = Some v"
    and "truthy_licenseToken v = None"
    and "\<not> areSecretsAvailable e"
  shows "processGet pf e req =
           \<lparr>trace = [Called_getVideoByName (videoName req), Called_areSecretsAvailable,
                      Console_log ''ERROR: You must configure the secrets file to generate license tokens.'',
                      Response_status 500,
                      Response_send ''You must configure the secrets file to generate license tokens.''],
            thrown = None\<rparr>
         \<and> response_status (trace (processGet pf e req)) = 500
         \<and> bodies (trace (processGet pf e req)) =
             [Text ''You must configure the secrets file to generate license tokens.'']
         \<and> ciphers_created (trace (processGet pf e req)) = []
         \<and> signed_payloads (trace (processGet pf e req)) = []"
  using assms by (simp add: processGet_def generate_token_unavailable response_status_def)

theorem secrets_gate_witness:
  "processGet demo_platform (demo_env\<lparr>areSecretsAvailable := False\<rparr>) \<lparr>videoName = ''demo1''\<rparr> =
           \<lparr>trace = [Called_getVideoByName (videoName \<lparr>videoName = ''demo1''\<rparr>), Called_areSecretsAvailable,
                      Console_log ''ERROR: You must configure the secrets file to generate license tokens.'',
                      Response_status 500,
                      Response_send ''You must configure the secrets file to generate license tokens.''],
            thrown = None\<rparr>
   \<and> response_status (trace (processGet demo_platform (demo_env\<lparr>areSecretsAvailable := False\<rparr>) \<lparr>videoName = ''demo1''\<rparr>)) = 500
   \<and> bodies (trace (processGet demo_platform (demo_env\<lparr>areSecretsAvailable := False\<rparr>) \<lparr>videoName = ''demo1''\<rparr>)) =
       [Text ''You must configure the secrets file to generate license tokens.'']
   \<and> ciphers_created (trace (processGet demo_platform (demo_env\<lparr>areSecretsAvailable := False\<rparr>) \<lparr>videoName = ''demo1''\<rparr>)) = []
   \<and> signed_payloads (trace (processGet demo_platform (demo_env\<lparr>areSecretsAvailable := False\<rparr>) \<lparr>videoName = ''demo1''\<rparr>)) = []"
proof -
  have v: "getVideoByName (demo_env\<lparr>areSecretsAvailable := False\<rparr>) (videoName \<lparr>videoName = ''demo1''\<rparr>) =
      Some \<lparr>licenseToken = None, keys = [demo_key]\<rparr>"
    using demo1_video by simp
  have na: "\<not> areSecretsAvailable (demo_env\<lparr>areSecretsAvailable := False\<rparr>)"
    by simp
  show ?thesis
    by (rule secrets_gate [OF v demo1_truthy na])
qed

text \<open>
  Claim C8 (token wire format), as the code has it. Let a request reach the construction
  of a token: the video is in the catalog and carries no token of its own, the secrets
  are available, and every content key of the video can be wrapped (the communication
  key has 32 bytes and the key is a whole number of 16-byte blocks). Then the handler
  sends one token. Split at the dots it has three segments, each of them over the
  base64url alphabet, and the first is the header of an HS256 token. The second segment
  decodes to a JSON object with six fields in this order: \<^verbatim>\<open>version\<close> (1),
  \<^verbatim>\<open>com_key_id\<close> (the identifier of the communication key), \<^verbatim>\<open>message\<close> (with
  \<^verbatim>\<open>type\<close>, \<^verbatim>\<open>begin_date\<close>, \<^verbatim>\<open>expiration_date\<close> and \<^verbatim>\<open>keys\<close>, one entry with
  \<^verbatim>\<open>id\<close> and \<^verbatim>\<open>encrypted_key\<close> for each content key), \<^verbatim>\<open>begin_date\<close>,
  \<^verbatim>\<open>expiration_date\<close> (the dates as \<^verbatim>\<open>toISOString\<close> gives them), and \<^verbatim>\<open>iat\<close>, the
  second in which the token was signed, which \<^verbatim>\<open>jwt.sign\<close> adds to the five fields of
  the envelope.
\<close>

theorem token_wire_format:
  assumes "getVideoByName e (videoName req) = Some v"
    and "truthy_licenseToken v = None"
    and "areSecretsAvailable e"
    and "\<forall>k \<in> set (keys v). length (communicationKeyAsBuffer pf e) = 32
           \<and> length (from_base64 pf (key k)) mod 16 = 0"
  shows "map (length \<circ> split_on CHR ''.'') (tokens (trace (processGet pf e req))) = [3]
         \<and> (\<forall>token \<in> set (tokens (trace (processGet pf e req))).
              \<forall>segment \<in> set (split_on CHR ''.'' token). set segment \<subseteq> set b64url_chars)
         \<and> map (hd \<circ> split_on CHR ''.'') (tokens (trace (processGet pf e req))) =
             [''eyJhbGciOiJIUzI1NiIsInR5cCI6IkpXVCJ9'']
         \<and> map token_payload (tokens (trace (processGet pf e req))) =
             [Some (JObj
                [(''version'', JNum 1),
                 (''com_key_id'', JStr (communicationKeyId (getSecrets e))),
                 (''message'',
                  JObj [(''type'', JStr ''entitlement_message''),
                        (''begin_date'', JStr (toISOString pf (add_days pf (- 1) (moment_now e)))),
                        (''expiration_date'', JStr (toISOString pf (add_days pf 1 (moment_now e)))),
                        (''keys'',
                         JArr (map (\<lambda>k. JObj [(''id'', JStr (keyId k)),
                                                (''encrypted_key'',
                                                 JStr (base64_encode
                                                   (cbc_encrypt_nopad
                                                      (aes256_encrypt pf (communicationKeyAsBuffer pf e))
                                                      (uuid_parse (keyId k))
                                                      (from_base64 pf (key k)))))])
                                 (keys v)))]),
                 (''begin_date'', JStr (toISOString pf (add_days pf (- 1) (moment_now e)))),
                 (''expiration_date'', JStr (toISOString pf (add_days pf 1 (moment_now e)))),
                 (''iat'', JNum (date_now e div 1000))])]"
proof -
  have payload: "token_payload (jwt_token pf (built_envelope pf e ws) ck t) =
      Some (JObj (built_envelope pf e ws @ [(''iat'', JNum (t div 1000))]))" for ws ck t
    by (simp add: token_payload_jwt_token jwt_payload_no_iat [OF built_envelope_no_iat])
  have fields: "built_envelope pf e (map (wrapped_key pf (communicationKeyAsBuffer pf e)) (keys v))
        @ [(''iat'', JNum (date_now e div 1000))] =
      [(''version'', JNum 1),
       (''com_key_id'', JStr (communicationKeyId (getSecrets e))),
       (''message'',
        JObj [(''type'', JStr ''entitlement_message''),
              (''begin_date'', JStr (toISOString pf (add_days pf (- 1) (moment_now e)))),
              (''expiration_date'', JStr (toISOString pf (add_days pf 1 (moment_now e)))),
              (''keys'',
               JArr (map (\<lambda>k. JObj [(''id'', JStr (keyId k)),
                                      (''encrypted_key'',
                                       JStr (base64_encode
                                         (cbc_encrypt_nopad
                                            (aes256_encrypt pf (communicationKeyAsBuffer pf e))
                                            (uuid_parse (keyId k))
                                            (from_base64 pf (key k)))))])
                       (keys v)))]),
       (''begin_date'', JStr (toISOString pf (add_days pf (- 1) (moment_now e)))),
       (''expiration_date'', JStr (toISOString pf (add_days pf 1 (moment_now e)))),
       (''iat'', JNum (date_now e div 1000))]"
    by (simp add: built_envelope_explicit wrapped_key_def)
  show ?thesis
    unfolding constructed_reads(2) [OF assms]
    by (simp add: jwt_token_three_segments payload fields)
qed

theorem token_wire_format_witness:
  "map (length \<circ> split_on CHR ''.'')
       (tokens (trace (processGet demo_platform demo_env \<lparr>videoName = ''demo4''\<rparr>))) = [3]
   \<and> map (hd \<circ> split_on CHR ''.'')
       (tokens (trace (processGet demo_platform demo_env \<lparr>videoName = ''demo4''\<rparr>))) =
       [''eyJhbGciOiJIUzI1NiIsInR5cCI6IkpXVCJ9'']
   \<and> map token_payload (tokens (trace (processGet demo_platform demo_env \<lparr>videoName = ''demo4''\<rparr>))) =
       [Some (JObj
          [(''version'', JNum 1),
           (''com_key_id'', JStr ''c1''),
           (''message'',
            JObj [(''type'', JStr ''entitlement_message''),
                  (''begin_date'', JStr ''2017-07-13T02:40:00.000Z''),
                  (''expiration_date'', JStr ''2017-07-15T02:40:00.000Z''),
                  (''keys'',
                   JArr [JObj [(''id'', JStr ''0f1e2d3c-4b5a-6978-8796-a5b4c3d2e1f0''),
                               (''encrypted_key'', JStr ''fzLUP0qFDtG0/BFfWrKIbz8uHQx7allIt6aVhPPi0cI='')],
                         JObj [(''id'', JStr ''00112233-4455-6677-8899-aabbccddeeff''),
                               (''encrypted_key'', JStr ''YC3LIFWaEc6r4w5ARa2Xcg=='')]])]),
           (''begin_date'', JStr ''2017-07-13T02:40:00.000Z''),
           (''expiration_date'', JStr ''2017-07-15T02:40:00.000Z''),
           (''iat'', JNum 1500000000)])]"
proof -
  have v: "getVideoByName demo_env (videoName \<lparr>videoName = ''demo4''\<rparr>) =
      Some \<lparr>licenseToken = None, keys = [long_key, demo_key]\<rparr>"
    by (simp add: demo_env_def demo_catalog_def)
  have t: "truthy_licenseToken \<lparr>licenseToken = None, keys = [long_key, demo_key]\<rparr> = None"
    by (simp add: truthy_licenseToken_def)
  have whole: "\<forall>k \<in> set (keys \<lparr>licenseToken = None, keys = [long_key, demo_key]\<rparr>).
      length (communicationKeyAsBuffer demo_platform demo_env) = 32
      \<and> length (from_base64 demo_platform (key k)) mod 16 = 0"
    by (simp add: demo_communicationKey long_key_bytes demo_key_bytes)
  note inst = token_wire_format [OF v t demo_available whole]
  have ws: "map (\<lambda>k. JObj [(''id'', JStr (keyId k)),
                            (''encrypted_key'',
                             JStr (base64_encode
                               (cbc_encrypt_nopad
                                  (aes256_encrypt demo_platform (communicationKeyAsBuffer demo_platform demo_env))
                                  (uuid_parse (keyId k))
                                  (from_base64 demo_platform (key k)))))])
             (keys \<lparr>licenseToken = None, keys = [long_key, demo_key]\<rparr>) =
      [JObj [(''id'', JStr ''0f1e2d3c-4b5a-6978-8796-a5b4c3d2e1f0''),
             (''encrypted_key'', JStr ''fzLUP0qFDtG0/BFfWrKIbz8uHQx7allIt6aVhPPi0cI='')],
       JObj [(''id'', JStr ''00112233-4455-6677-8899-aabbccddeeff''),
             (''encrypted_key'', JStr ''YC3LIFWaEc6r4w5ARa2Xcg=='')]]"
    by (simp add: long_wrapped [unfolded wrapped_key_def]
        demo_wrapped [unfolded wrapped_key_def demo_wrapped_key_def])
  have cid: "communicationKeyId (getSecrets demo_env) = ''c1''"
    by (simp add: demo_env_def demo_secrets_def)
  have iat: "date_now demo_env div 1000 = 1500000000"
    by (simp add: demo_env_def)
  from inst show ?thesis
    unfolding ws cid iat demo_dates [unfolded begin_date_def expiration_date_def]
    by blast
qed

text \<open>
  The specification's wording of C8 allows no field besides the five of the envelope.
  The token that the handler sends for \<^verbatim>\<open>demo1\<close> has a payload of six fields: the
  sixth is \<^verbatim>\<open>iat\<close>.
\<close>

theorem token_payload_has_iat:
  "tokens (trace (processGet demo_platform demo_env \<lparr>videoName = ''demo1''\<rparr>)) = [demo_token]
   \<and> map_option property_names (token_payload demo_token) =
       Some [''version'', ''com_key_id'', ''message'', ''begin_date'', ''expiration_date'', ''iat'']
   \<and> map_option property_names (token_payload demo_token) \<noteq>
       Some [''version'', ''com_key_id'', ''message'', ''begin_date'', ''expiration_date'']
   \<and> map_option (property ''iat'') (token_payload demo_token) = Some (Some (JNum 1500000000))"
  unfolding demo_token_payload
  by (simp add: demo1_token demo_envelope_def)

text \<open>
  Claim C9 (round trip), as the code has it. Let a request reach the construction of a
  token, as in C8. Then the handler signs one envelope and sends one token, and the
  payload segment of the token is the base64url of the serialization of the envelope's
  fields followed by the field \<^verbatim>\<open>iat\<close>, which \<^verbatim>\<open>jwt.sign\<close> adds. Decoding the segment
  and reading it as JSON gives that object: the five fields of the envelope, each as it
  was signed, and \<^verbatim>\<open>iat\<close>. Without \<^verbatim>\<open>iat\<close> the decoded payload is the envelope that
  was signed, and serializing the decoded payload and encoding it again gives the
  payload segment of the token. Signing removes nothing, and adds \<^verbatim>\<open>iat\<close>.
\<close>

theorem payload_round_trip:
  assumes "getVideoByName e (videoName req) = Some v"
    and "truthy_licenseToken v = None"
    and "areSecretsAvailable e"
    and "\<forall>k \<in> set (keys v). length (communicationKeyAsBuffer pf e) = 32
           \<and> length (from_base64 pf (key k)) mod 16 = 0"
  shows "length (signed_payloads (trace (processGet pf e req))) = 1
         \<and> length (tokens (trace (processGet pf e req))) = 1
         \<and> map (\<lambda>token. base64url_decode (split_on CHR ''.'' token ! 1))
               (tokens (trace (processGet pf e req))) =
             map (\<lambda>envelope. Some (bytes_of_string (stringify
                    (JObj (members envelope @ [(''iat'', JNum (date_now e div 1000))])))))
               (signed_payloads (trace (processGet pf e req)))
         \<and> map token_payload (tokens (trace (processGet pf e req))) =
             map (\<lambda>envelope. Some (JObj (members envelope @ [(''iat'', JNum (date_now e div 1000))])))
               (signed_payloads (trace (processGet pf e req)))
         \<and> map (map_option (without_property ''iat'') \<circ> token_payload)
               (tokens (trace (processGet pf e req))) =
             map Some (signed_payloads (trace (processGet pf e req)))
         \<and> map (\<lambda>token. map_option (\<lambda>payload. base64url_encode (bytes_of_string (stringify payload)))
                           (token_payload token))
               (tokens (trace (processGet pf e req))) =
             map (\<lambda>token. Some (split_on CHR ''.'' token ! 1)) (tokens (trace (processGet pf e req)))"
proof -
  note rt = jwt_token_roundtrip [OF built_envelope_no_iat]
  have segment: "base64url_decode (split_on CHR ''.'' (jwt_token pf (built_envelope pf e ws) ck t) ! 1) =
      Some (bytes_of_string (stringify (JObj (built_envelope pf e ws @ [(''iat'', JNum (t div 1000))]))))"
    for ws ck t
    unfolding jwt_token_segments jwt_payload_no_iat [OF built_envelope_no_iat]
    by (simp only: nth_Cons_Suc nth_Cons_0 One_nat_def base64url_roundtrip)
  show ?thesis
    unfolding constructed_reads(1,2) [OF assms]
  proof (intro conjI, goal_cases)
    case 1
    show ?case by simp
  next
    case 2
    show ?case by simp
  next
    case 3
    show ?case by (simp only: list.map members.simps segment)
  next
    case 4
    show ?case by (simp only: list.map members.simps rt(1))
  next
    case 5
    show ?case by (simp only: list.map o_apply rt(2))
  next
    case 6
    show ?case by (simp only: list.map rt(3))
  qed
qed

theorem payload_round_trip_witness:
  "signed_payloads (trace (processGet demo_platform demo_env \<lparr>videoName = ''demo1''\<rparr>)) = [JObj demo_envelope]
   \<and> tokens (trace (processGet demo_platform demo_env \<lparr>videoName = ''demo1''\<rparr>)) = [demo_token]
   \<and> token_payload demo_token = Some (JObj (demo_envelope @ [(''iat'', JNum 1500000000)]))
   \<and> map_option (without_property ''iat'') (token_payload demo_token) = Some (JObj demo_envelope)
   \<and> map_option (\<lambda>payload. base64url_encode (bytes_of_string (stringify payload)))
        (token_payload demo_token) = Some (split_on CHR ''.'' demo_token ! 1)"
proof -
  have whole: "\<forall>k \<in> set (keys \<lparr>licenseToken = None, keys = [demo_key]\<rparr>).
      length (communicationKeyAsBuffer demo_platform demo_env) = 32
      \<and> length (from_base64 demo_platform (key k)) mod 16 = 0"
    by (simp add: demo_communicationKey demo_key_bytes)
  have iat: "date_now demo_env div 1000 = 1500000000"
    by (simp add: demo_env_def)
  note inst = payload_round_trip [OF demo1_video demo1_truthy demo_available whole]
  note evaluated = inst [unfolded demo1_payloads demo1_token iat list.map members.simps o_apply
      list.inject simp_thms]
  from evaluated demo1_payloads demo1_token show ?thesis
    by blast
qed

text \<open>
  The specification's wording of C9 has the decoded payload reproduce the envelope, with
  nothing added. For \<^verbatim>\<open>demo1\<close> the decoded payload of the token is not the envelope
  that was signed, and its serialization is not the serialization of the envelope.
\<close>

theorem decoded_payload_is_not_the_envelope:
  "signed_payloads (trace (processGet demo_platform demo_env \<lparr>videoName = ''demo1''\<rparr>)) = [JObj demo_envelope]
   \<and> tokens (trace (processGet demo_platform demo_env \<lparr>videoName = ''demo1''\<rparr>)) = [demo_token]
   \<and> token_payload demo_token = Some (JObj (demo_envelope @ [(''iat'', JNum 1500000000)]))
   \<and> token_payload demo_token \<noteq> Some (JObj demo_envelope)
   \<and> map_option stringify (token_payload demo_token) \<noteq> Some (stringify (JObj demo_envelope))"
proof -
  have differ: "JObj (demo_envelope @ [(''iat'', JNum 1500000000)]) \<noteq> JObj demo_envelope"
    by simp
  then have "stringify (JObj (demo_envelope @ [(''iat'', JNum 1500000000)])) \<noteq> stringify (JObj demo_envelope)"
    using stringify_inject by blast
  with differ show ?thesis
    unfolding demo_token_payload by (simp add: demo1_payloads demo1_token)
qed

text \<open>
  Claim C10 (fixed tolerance). The handler subtracts and adds one calendar day in the
  time zone of the server, and a calendar day is not always 24 hours. On a server in
  the zone \<^verbatim>\<open>America/New_York\<close>, a request for \<^verbatim>\<open>demo1\<close> that arrives at
  2017-03-11T17:00:00Z (noon on the day before the clocks go forward) is answered, without
  an error, with an envelope that is valid from 24 hours before that instant to 23 hours
  after it: the window ends at 2017-03-12T16:00:00Z and not at 2017-03-12T17:00:00Z, at
  the level of the envelope and at the level of the message. So the window is not
  [now - 24 hours, now + 24 hours] for every request that reaches the construction of a
  token, against the claim and against the comment in the source
  (\<^verbatim>\<open>We allow this token to be used within plus or minus 24 hours\<close>).
\<close>

theorem window_ends_after_23_hours:
  "thrown (processGet dst_platform dst_env \<lparr>videoName = ''demo1''\<rparr>) = None
   \<and> map (lookup_path [''begin_date''])
         (signed_payloads (trace (processGet dst_platform dst_env \<lparr>videoName = ''demo1''\<rparr>))) =
       [Some (JStr ''2017-03-10T17:00:00.000Z'')]
   \<and> map (lookup_path [''expiration_date''])
         (signed_payloads (trace (processGet dst_platform dst_env \<lparr>videoName = ''demo1''\<rparr>))) =
       [Some (JStr ''2017-03-12T16:00:00.000Z'')]
   \<and> map (lookup_path [''message'', ''begin_date''])
         (signed_payloads (trace (processGet dst_platform dst_env \<lparr>videoName = ''demo1''\<rparr>))) =
       [Some (JStr ''2017-03-10T17:00:00.000Z'')]
   \<and> map (lookup_path [''message'', ''expiration_date''])
         (signed_payloads (trace (processGet dst_platform dst_env \<lparr>videoName = ''demo1''\<rparr>))) =
       [Some (JStr ''2017-03-12T16:00:00.000Z'')]
   \<and> toISOString dst_platform (moment_now dst_env) = ''2017-03-11T17:00:00.000Z''
   \<and> toISOString dst_platform (moment_now dst_env - 86400000) = ''2017-03-10T17:00:00.000Z''
   \<and> toISOString dst_platform (moment_now dst_env + 86400000) = ''2017-03-12T17:00:00.000Z''
   \<and> moment_now dst_env - add_days dst_platform (- 1) (moment_now dst_env) = 86400000
   \<and> add_days dst_platform 1 (moment_now dst_env) - moment_now dst_env = 82800000"
  unfolding dst_payloads list.map lookup_built_envelope dst_dates
  by (simp add: dst_platform_same dst_env_same dst_iso dst_add_days)

end
